theory Spec2Isabelle
  imports Complex_Main
begin

section \<open>Values, errors and array access\<close>

text \<open>
  The script \<^verbatim>\<open>examples/marine/calvingmip/postprocess_exp1.py\<close> works on numpy arrays of
  64-bit floats. A float is modelled as a finite real number or the not-a-number marker
  \<^verbatim>\<open>np.nan\<close>; rounding and infinities are not modelled. The properties proved below concern
  which cells are read and written and which constants and formulas are applied to them.
\<close>

datatype float64 = Fin real | NaN

text \<open>
  The exceptions: a missing dictionary key, an index out of range, and any other exception
  that a function of the helper module may raise, by its message.
\<close>

datatype error = KeyError string | IndexError | Failure string

text \<open>Sequencing of statements that may raise: the first exception aborts the rest.\<close>

definition and_then :: "error + 'a \<Rightarrow> ('a \<Rightarrow> error + 'b) \<Rightarrow> error + 'b" where
  "and_then m f = (case m of Inl e \<Rightarrow> Inl e | Inr a \<Rightarrow> f a)"

fun f_mul :: "float64 \<Rightarrow> float64 \<Rightarrow> float64" where
  "f_mul (Fin a) (Fin b) = Fin (a * b)"
| "f_mul _ _ = NaN"

fun f_add :: "float64 \<Rightarrow> float64 \<Rightarrow> float64" where
  "f_add (Fin a) (Fin b) = Fin (a + b)"
| "f_add _ _ = NaN"

fun f_sub :: "float64 \<Rightarrow> float64 \<Rightarrow> float64" where
  "f_sub (Fin a) (Fin b) = Fin (a - b)"
| "f_sub _ _ = NaN"

text \<open>Division is only ever applied with the non-zero divisor \<^verbatim>\<open>secperyear\<close>.\<close>

fun f_div :: "float64 \<Rightarrow> float64 \<Rightarrow> float64" where
  "f_div (Fin a) (Fin b) = Fin (a / b)"
| "f_div _ _ = NaN"

text \<open>\<^verbatim>\<open>v**2\<close>\<close>

definition f_sq :: "float64 \<Rightarrow> float64" where
  "f_sq v = f_mul v v"

text \<open>\<^verbatim>\<open>np.sqrt\<close>: not-a-number on a negative argument.\<close>

fun f_sqrt :: "float64 \<Rightarrow> float64" where
  "f_sqrt (Fin a) = (if a < 0 then NaN else Fin (sqrt a))"
| "f_sqrt NaN = NaN"

text \<open>\<^verbatim>\<open>v == 0.0\<close>: false on not-a-number.\<close>

fun f_is_zero :: "float64 \<Rightarrow> bool" where
  "f_is_zero (Fin a) = (a = 0)"
| "f_is_zero NaN = False"

text \<open>\<^verbatim>\<open>secperyear=365*24*3600\<close>\<close>

definition secperyear :: int where
  "secperyear = 365 * 24 * 3600"

text \<open>
  Python indexing \<^verbatim>\<open>xs[i]\<close> of a one-dimensional array: a negative index counts from the
  end, an index out of range raises.
\<close>

definition getitem :: "'a list \<Rightarrow> int \<Rightarrow> error + 'a" where
  "getitem xs i =
     (if 0 \<le> i \<and> i < int (length xs) then Inr (xs ! nat i)
      else if i < 0 \<and> - int (length xs) \<le> i then Inr (xs ! nat (int (length xs) + i))
      else Inl IndexError)"

section \<open>Reading the inputs\<close>

text \<open>
  A NetCDF dataset is its dictionary \<^verbatim>\<open>datnc.variables\<close>: the one-dimensional variables
  (\<^verbatim>\<open>x\<close>, \<^verbatim>\<open>y\<close>, \<^verbatim>\<open>time\<close>) and the variables over (time, row, column), each of the
  latter as the list of its two-dimensional time slices. Arrays are rectangular; an array
  without rows has shape \<open>(0, 0)\<close>.
\<close>

type_synonym grid = "float64 list list"

text \<open>
  The type a variable is stored with: floating point, or a signed or unsigned integer of
  the given number of bits. The dataset records it for the variable \<^verbatim>\<open>mask\<close>, whose cells
  are then integers in the range of the type; the other variables are floating point.
\<close>

datatype dtype = Float64 | Signed nat | Unsigned nat

record dataset =
  vars1 :: "string \<rightharpoonup> float64 list"
  vars3 :: "string \<rightharpoonup> grid list"
  mask_dtype :: dtype

text \<open>\<^verbatim>\<open>tex=-1\<close> and \<^verbatim>\<open>ti=-6\<close>\<close>

definition tex :: int where
  "tex = - 1"

definition ti :: int where
  "ti = - 6"

text \<open>\<^verbatim>\<open>datnc.variables[name][:]\<close>\<close>

definition read1 :: "dataset \<Rightarrow> string \<Rightarrow> error + float64 list" where
  "read1 ds name = (case vars1 ds name of None \<Rightarrow> Inl (KeyError name) | Some xs \<Rightarrow> Inr xs)"

text \<open>\<^verbatim>\<open>datnc.variables[name][tex,:]\<close>: the slice at time index \<^verbatim>\<open>tex\<close>.\<close>

definition read3 :: "dataset \<Rightarrow> string \<Rightarrow> error + grid" where
  "read3 ds name =
     (case vars3 ds name of None \<Rightarrow> Inl (KeyError name) | Some slices \<Rightarrow> getitem slices tex)"

text \<open>\<^verbatim>\<open>array*secperyear\<close> on a two-dimensional array.\<close>

definition per_year :: "grid \<Rightarrow> grid" where
  "per_year a = map (map (\<lambda>v. f_mul v (Fin (of_int secperyear)))) a"

text \<open>The body of the \<^verbatim>\<open>try\<close> block.\<close>

definition read_primary :: "dataset \<Rightarrow> error + grid \<times> grid \<times> grid" where
  "read_primary ds =
     and_then (read3 ds ''xvelmean'') (\<lambda>xv.
     and_then (read3 ds ''yvelmean'') (\<lambda>yv.
     and_then (read3 ds ''lithk'') (\<lambda>th.
     Inr (per_year xv, per_year yv, th))))"

text \<open>The body of the \<^verbatim>\<open>except\<close> block.\<close>

definition read_fallback :: "dataset \<Rightarrow> error + grid \<times> grid \<times> grid" where
  "read_fallback ds =
     and_then (read3 ds ''u_ssa'') (\<lambda>xv.
     and_then (read3 ds ''v_ssa'') (\<lambda>yv.
     and_then (read3 ds ''thk'') (\<lambda>th.
     Inr (per_year xv, per_year yv, th))))"

text \<open>
  \<^verbatim>\<open>try: ... except: ...\<close>: the bare \<^verbatim>\<open>except\<close> catches every exception of the first
  block, whatever its kind, and runs the second block instead.
\<close>

definition read_velocity_thickness :: "dataset \<Rightarrow> error + grid \<times> grid \<times> grid" where
  "read_velocity_thickness ds =
     (case read_primary ds of Inr r \<Rightarrow> Inr r | Inl e \<Rightarrow> read_fallback ds)"

text \<open>
  Integer arithmetic of numpy arrays stays in the type of the array and wraps around at
  the ends of its range.
\<close>

definition wrap :: "dtype \<Rightarrow> int \<Rightarrow> int" where
  "wrap dt z =
     (case dt of
        Float64 \<Rightarrow> z
      | Signed w \<Rightarrow> (z + 2 ^ w div 2) mod 2 ^ w - 2 ^ w div 2
      | Unsigned w \<Rightarrow> z mod 2 ^ w)"

text \<open>\<^verbatim>\<open>v-1\<close> on a cell of an array of the given type.\<close>

fun minus_one :: "dtype \<Rightarrow> float64 \<Rightarrow> float64" where
  "minus_one Float64 v = f_sub v (Fin 1)"
| "minus_one dt (Fin r) = Fin (of_int (wrap dt (\<lfloor>r\<rfloor> - 1)))"
| "minus_one dt NaN = NaN"

text \<open>\<^verbatim>\<open>datnc.variables["mask"][tex,:]-1\<close>\<close>

definition remap_mask :: "dtype \<Rightarrow> grid \<Rightarrow> grid" where
  "remap_mask dt a = map (map (minus_one dt)) a"

text \<open>\<^verbatim>\<open>datnc.variables[name][tex:]*secperyear\<close>: the slices from index \<^verbatim>\<open>tex\<close> on.\<close>

definition read_tail :: "dataset \<Rightarrow> string \<Rightarrow> error + grid list" where
  "read_tail ds name =
     (case vars3 ds name of None \<Rightarrow> Inl (KeyError name)
      | Some slices \<Rightarrow> Inr (map per_year (drop (length slices - 1) slices)))"

text \<open>\<^verbatim>\<open>[value/secperyear-110000.0]\<close>\<close>

definition model_year :: "float64 \<Rightarrow> float64" where
  "model_year v = f_sub (f_div v (Fin (of_int secperyear))) (Fin 110000)"

record snapshot =
  exp1_x :: "float64 list"
  exp1_y :: "float64 list"
  exp1_t :: "float64 list"
  exp1_xvm :: grid
  exp1_yvm :: grid
  exp1_thk :: grid
  exp1_mask :: grid
  exp1_crate :: "grid list"
  exp1_topg :: grid

definition read_snapshot :: "dataset \<Rightarrow> error + snapshot" where
  "read_snapshot ds =
     and_then (read1 ds ''x'') (\<lambda>xs.
     and_then (read1 ds ''y'') (\<lambda>ys.
     and_then (read1 ds ''time'') (\<lambda>ts.
     and_then (getitem ts tex) (\<lambda>t.
     and_then (read_velocity_thickness ds) (\<lambda>(xv, yv, th).
     and_then (read3 ds ''mask'') (\<lambda>m.
     and_then (read_tail ds ''calvingmip_calving_rate'') (\<lambda>cr.
     and_then (read3 ds ''topg'') (\<lambda>tg.
     Inr \<lparr>exp1_x = xs, exp1_y = ys, exp1_t = [model_year t],
          exp1_xvm = xv, exp1_yvm = yv, exp1_thk = th,
          exp1_mask = remap_mask (mask_dtype ds) m, exp1_crate = cr, exp1_topg = tg\<rparr>))))))))"

text \<open>\<^verbatim>\<open>Mx,My = np.shape(exp1_mask)\<close>\<close>

definition shape2 :: "'a list list \<Rightarrow> nat \<times> nat" where
  "shape2 a = (length a, (case a of [] \<Rightarrow> 0 | r # _ \<Rightarrow> length r))"

text \<open>The scalar time series: a dictionary of one-dimensional variables, read at \<^verbatim>\<open>ti\<close>.\<close>

type_synonym series = "string \<rightharpoonup> float64 list"

definition read_at :: "series \<Rightarrow> string \<Rightarrow> error + float64" where
  "read_at tsd name =
     (case tsd name of None \<Rightarrow> Inl (KeyError name) | Some xs \<Rightarrow> getitem xs ti)"

record timeseries =
  exp1_ts_t :: "float64 list"
  exp1_ts_afl :: "float64 list"
  exp1_ts_agr :: "float64 list"
  exp1_ts_lim :: "float64 list"
  exp1_ts_limnsw :: "float64 list"
  exp1_ts_tendcf :: "float64 list"
  exp1_ts_tendgf :: "float64 list"

definition read_timeseries :: "series \<Rightarrow> error + timeseries" where
  "read_timeseries tsd =
     and_then (read_at tsd ''time'') (\<lambda>t.
     and_then (read_at tsd ''iareafl'') (\<lambda>afl.
     and_then (read_at tsd ''iareagr'') (\<lambda>agr.
     and_then (read_at tsd ''lim'') (\<lambda>lim.
     and_then (read_at tsd ''limnsw'') (\<lambda>limnsw.
     and_then (read_at tsd ''tendlicalvf'') (\<lambda>cf.
     and_then (read_at tsd ''tendligroundf'') (\<lambda>gf.
     Inr \<lparr>exp1_ts_t = [model_year t], exp1_ts_afl = [afl], exp1_ts_agr = [agr],
          exp1_ts_lim = [lim], exp1_ts_limnsw = [limnsw],
          exp1_ts_tendcf = [f_mul cf (Fin (of_int secperyear))],
          exp1_ts_tendgf = [f_mul gf (Fin (of_int secperyear))]\<rparr>)))))))"

section \<open>The eight transects\<close>

text \<open>
  \<^verbatim>\<open>Mp=int((Mx-1)/2.0)\<close>: the float quotient is exact for every array size that fits in
  memory, and \<^verbatim>\<open>int\<close> truncates toward zero.
\<close>

definition Mp :: "int \<Rightarrow> int" where
  "Mp Mx = (if 0 \<le> Mx - 1 then (Mx - 1) div 2 else - ((1 - Mx) div 2))"

type_synonym index_pair = "int \<times> int"

text \<open>A transect \<^verbatim>\<open>[[a,b],[c,d]]\<close> is its start and its end index pair.\<close>

type_synonym transect = "index_pair \<times> index_pair"

definition points_C :: "int \<Rightarrow> int \<Rightarrow> transect" where
  "points_C Mx My = ((Mp Mx, Mp Mx), (Mx - 2, Mp Mx))"

definition points_B :: "int \<Rightarrow> int \<Rightarrow> transect" where
  "points_B Mx My = ((Mp Mx, Mp Mx), (Mx - 2, My - 2))"

definition points_A :: "int \<Rightarrow> int \<Rightarrow> transect" where
  "points_A Mx My = ((Mp Mx, Mp Mx), (Mp Mx, My - 2))"

definition points_H :: "int \<Rightarrow> int \<Rightarrow> transect" where
  "points_H Mx My = ((Mp Mx, Mp Mx), (2, My - 2))"

definition points_G :: "int \<Rightarrow> int \<Rightarrow> transect" where
  "points_G Mx My = ((Mp Mx, Mp Mx), (2, Mp Mx))"

definition points_F :: "int \<Rightarrow> int \<Rightarrow> transect" where
  "points_F Mx My = ((Mp Mx, Mp Mx), (2, 2))"

definition points_E :: "int \<Rightarrow> int \<Rightarrow> transect" where
  "points_E Mx My = ((Mp Mx, Mp Mx), (Mp Mx, 2))"

definition points_D :: "int \<Rightarrow> int \<Rightarrow> transect" where
  "points_D Mx My = ((Mp Mx, Mp Mx), (Mx - 2, 2))"

definition transects :: "int \<Rightarrow> int \<Rightarrow> transect list" where
  "transects Mx My =
     [points_A Mx My, points_B Mx My, points_C Mx My, points_D Mx My,
      points_E Mx My, points_F Mx My, points_G Mx My, points_H Mx My]"

definition point_names :: "string list" where
  "point_names = [''A'', ''B'', ''C'', ''D'', ''E'', ''F'', ''G'', ''H'']"

text \<open>\<^verbatim>\<open>resolution=5.0\<close>, \<^verbatim>\<open>dkm=5.0\<close> and \<^verbatim>\<open>dp=np.float(dkm)/np.float(resolution)\<close>\<close>

definition resolution :: real where
  "resolution = 5"

definition dkm :: real where
  "dkm = 5"

definition dp :: real where
  "dp = dkm / resolution"

section \<open>The helper module\<close>

text \<open>
  The three functions of \<^verbatim>\<open>postprocess_helper\<close> that the script calls are parameters of the
  model: the transect point generator (which also reads the input file of the run), the
  bilinear sampler and the nearest-neighbour sampler. Each may raise.
\<close>

type_synonym point = "real \<times> real"

record helpers =
  get_troughs :: "transect list \<Rightarrow> real \<Rightarrow> error + point list list"
  interpolate_along_transect :: "grid \<Rightarrow> int \<Rightarrow> int \<Rightarrow> real \<Rightarrow> real \<Rightarrow> error + float64"
  nearest_along_transect :: "grid \<Rightarrow> int \<Rightarrow> int \<Rightarrow> real \<Rightarrow> real \<Rightarrow> error + float64"

section \<open>Coordinate meshes\<close>

text \<open>\<^verbatim>\<open>np.zeros([m,n])\<close>\<close>

definition zeros :: "nat \<Rightarrow> nat \<Rightarrow> grid" where
  "zeros m n = replicate m (replicate n (Fin 0))"

text \<open>\<^verbatim>\<open>a[i,:]=v\<close>\<close>

definition set_row :: "grid \<Rightarrow> nat \<Rightarrow> float64 \<Rightarrow> error + grid" where
  "set_row a i v =
     (if i < length a then Inr (a[i := replicate (length (a ! i)) v]) else Inl IndexError)"

text \<open>\<^verbatim>\<open>a[:,j]=v\<close>\<close>

definition set_col :: "grid \<Rightarrow> nat \<Rightarrow> float64 \<Rightarrow> error + grid" where
  "set_col a j v =
     (if list_all (\<lambda>row. j < length row) a then Inr (map (\<lambda>row. row[j := v]) a)
      else Inl IndexError)"

text \<open>\<^verbatim>\<open>for i in range(Mx): exp1_xm[i,:]=exp1_x[i]\<close>\<close>

fun fill_rows :: "float64 list \<Rightarrow> nat list \<Rightarrow> grid \<Rightarrow> error + grid" where
  "fill_rows xs [] a = Inr a"
| "fill_rows xs (i # rest) a =
     and_then (getitem xs (int i)) (\<lambda>v.
     and_then (set_row a i v) (\<lambda>a'.
     fill_rows xs rest a'))"

text \<open>\<^verbatim>\<open>for j in range(My): exp1_ym[:,j]=exp1_y[j]\<close>\<close>

fun fill_cols :: "float64 list \<Rightarrow> nat list \<Rightarrow> grid \<Rightarrow> error + grid" where
  "fill_cols ys [] a = Inr a"
| "fill_cols ys (j # rest) a =
     and_then (getitem ys (int j)) (\<lambda>v.
     and_then (set_col a j v) (\<lambda>a'.
     fill_cols ys rest a'))"

definition build_mesh :: "float64 list \<Rightarrow> float64 list \<Rightarrow> nat \<Rightarrow> nat \<Rightarrow> error + grid \<times> grid" where
  "build_mesh xs ys m n =
     and_then (fill_rows xs [0..<m] (zeros m n)) (\<lambda>xm.
     and_then (fill_cols ys [0..<n] (zeros m n)) (\<lambda>ym.
     Inr (xm, ym)))"

section \<open>Sampling along the transects\<close>

text \<open>The seven sample buffers, each \<^verbatim>\<open>np.zeros([len(trans),300])\<close>.\<close>

record buffers =
  xav :: grid
  yav :: grid
  Hav :: grid
  mav :: grid
  uav :: grid
  vav :: grid
  sav :: grid

definition capacity :: nat where
  "capacity = 300"

definition allocate :: "nat \<Rightarrow> buffers" where
  "allocate n =
     \<lparr>xav = zeros n capacity, yav = zeros n capacity, Hav = zeros n capacity,
      mav = zeros n capacity, uav = zeros n capacity, vav = zeros n capacity,
      sav = zeros n capacity\<rparr>"

text \<open>\<^verbatim>\<open>a[l,k]=v\<close> with non-negative \<^verbatim>\<open>l\<close> and \<^verbatim>\<open>k\<close>\<close>

definition set2 :: "grid \<Rightarrow> nat \<Rightarrow> nat \<Rightarrow> float64 \<Rightarrow> error + grid" where
  "set2 a l k v =
     (if l < length a \<and> k < length (a ! l) then Inr (a[l := (a ! l)[k := v]])
      else Inl IndexError)"

text \<open>
  The body of the inner loop for point \<^verbatim>\<open>p\<close>, number \<^verbatim>\<open>k\<close> of transect \<^verbatim>\<open>l\<close>. The value
  stored in \<^verbatim>\<open>xav\<close> is sampled from the mesh \<^verbatim>\<open>exp1_ym\<close> and the one in \<^verbatim>\<open>yav\<close> from
  \<^verbatim>\<open>exp1_xm\<close>, as in the script.
\<close>

definition sample_point ::
  "helpers \<Rightarrow> snapshot \<Rightarrow> grid \<Rightarrow> grid \<Rightarrow> nat \<Rightarrow> nat \<Rightarrow> point \<Rightarrow> buffers \<Rightarrow> error + buffers" where
  "sample_point h sn xm ym l k p b =
     (let i = \<lfloor>snd p\<rfloor>; j = \<lfloor>fst p\<rfloor>;
          di = fst p - of_int \<lfloor>fst p\<rfloor>; dj = snd p - of_int \<lfloor>snd p\<rfloor>
      in
       and_then (interpolate_along_transect h ym i j di dj) (\<lambda>x.
       and_then (set2 (xav b) l k x) (\<lambda>xa.
       and_then (interpolate_along_transect h xm i j di dj) (\<lambda>y.
       and_then (set2 (yav b) l k y) (\<lambda>ya.
       and_then (set2 (sav b) l k (f_sqrt (f_add (f_sq x) (f_sq y)))) (\<lambda>sa.
       and_then (interpolate_along_transect h (exp1_thk sn) i j di dj) (\<lambda>th.
       and_then (set2 (Hav b) l k th) (\<lambda>Ha.
       and_then (interpolate_along_transect h (exp1_xvm sn) i j di dj) (\<lambda>u.
       and_then (set2 (uav b) l k u) (\<lambda>ua.
       and_then (interpolate_along_transect h (exp1_yvm sn) i j di dj) (\<lambda>v.
       and_then (set2 (vav b) l k v) (\<lambda>va.
       and_then (nearest_along_transect h (exp1_mask sn) i j di dj) (\<lambda>m.
       and_then (set2 (mav b) l k m) (\<lambda>ma.
       Inr \<lparr>xav = xa, yav = ya, Hav = Ha, mav = ma, uav = ua, vav = va,
            sav = sa\<rparr>))))))))))))))"

type_synonym profile = "(float64 \<times> float64 \<times> float64) list"

text \<open>\<^verbatim>\<open>for k,p in enumerate(po): ...; profile.append(pair)\<close>\<close>

fun sample_transect ::
  "helpers \<Rightarrow> snapshot \<Rightarrow> grid \<Rightarrow> grid \<Rightarrow> nat \<Rightarrow> nat \<Rightarrow> point list \<Rightarrow> buffers \<times> profile
     \<Rightarrow> error + buffers \<times> profile" where
  "sample_transect h sn xm ym l k [] (b, prof) = Inr (b, prof)"
| "sample_transect h sn xm ym l k (p # ps) (b, prof) =
     and_then (sample_point h sn xm ym l k p b) (\<lambda>b'.
     sample_transect h sn xm ym l (Suc k) ps
       (b', prof @ [(xav b' ! l ! k, yav b' ! l ! k, sav b' ! l ! k)]))"

text \<open>\<^verbatim>\<open>for l,po in enumerate(trans): ...; profiles[point_names[l]]=profile\<close>\<close>

fun sample_all ::
  "helpers \<Rightarrow> snapshot \<Rightarrow> grid \<Rightarrow> grid \<Rightarrow> nat \<Rightarrow> point list list
     \<Rightarrow> buffers \<times> (string \<rightharpoonup> profile) \<Rightarrow> error + buffers \<times> (string \<rightharpoonup> profile)" where
  "sample_all h sn xm ym l [] (b, profiles) = Inr (b, profiles)"
| "sample_all h sn xm ym l (po # rest) (b, profiles) =
     and_then (sample_transect h sn xm ym l 0 po (b, [])) (\<lambda>(b', prof).
     and_then (getitem point_names (int l)) (\<lambda>name.
     sample_all h sn xm ym (Suc l) rest (b', profiles(name \<mapsto> prof))))"

section \<open>The run up to the output stage\<close>

text \<open>
  Everything the script computes before it opens the output file: the two input files are
  read, the transects are defined and handed to the point generator, the buffers are
  allocated, the meshes are built and the transects are sampled.
\<close>

record prepared =
  snap :: snapshot
  tsv :: timeseries
  trans' :: "point list list"
  bufs :: buffers
  exp1_xm :: grid
  exp1_ym :: grid
  profiles' :: "string \<rightharpoonup> profile"

text \<open>The statements before the call of the point generator.\<close>

definition define_profiles ::
  "dataset \<Rightarrow> series \<Rightarrow> error + snapshot \<times> timeseries \<times> nat \<times> nat \<times> transect list" where
  "define_profiles ds tsd =
     and_then (read_snapshot ds) (\<lambda>sn.
     (case shape2 (exp1_mask sn) of (m, n) \<Rightarrow>
     and_then (read_timeseries tsd) (\<lambda>tv.
     Inr (sn, tv, m, n, transects (int m) (int n)))))"

definition prepare :: "helpers \<Rightarrow> dataset \<Rightarrow> series \<Rightarrow> error + prepared" where
  "prepare h ds tsd =
     and_then (define_profiles ds tsd) (\<lambda>(sn, tv, m, n, trs).
     and_then (get_troughs h trs dp) (\<lambda>trns.
     and_then (build_mesh (exp1_x sn) (exp1_y sn) m n) (\<lambda>(xm, ym).
     and_then (sample_all h sn xm ym 0 trns (allocate (length trns), Map.empty)) (\<lambda>(b, profs).
     Inr \<lparr>snap = sn, tsv = tv, trans' = trns, bufs = b, exp1_xm = xm, exp1_ym = ym,
          profiles' = profs\<rparr>))))"

text \<open>
  The statements before the sampling loop: those of \<open>prepare\<close> up to the two mesh loops.
  The allocation of the buffers in between cannot fail.
\<close>

definition before_sampling ::
  "helpers \<Rightarrow> dataset \<Rightarrow> series
     \<Rightarrow> error + snapshot \<times> timeseries \<times> point list list \<times> grid \<times> grid" where
  "before_sampling h ds tsd =
     and_then (define_profiles ds tsd) (\<lambda>(sn, tv, m, n, trs).
     and_then (get_troughs h trs dp) (\<lambda>trns.
     and_then (build_mesh (exp1_x sn) (exp1_y sn) m n) (\<lambda>(xm, ym).
     Inr (sn, tv, trns, xm, ym))))"

section \<open>The output stage\<close>

text \<open>\<^verbatim>\<open>a[a == 0.0] = np.nan\<close>\<close>

definition nan_where_zero :: "grid \<Rightarrow> grid" where
  "nan_where_zero a = map (map (\<lambda>v. if f_is_zero v then NaN else v)) a"

text \<open>
  The dimension and the six variables written for one transect. Of the attributes only the
  flag attributes of the mask variables are modelled.
\<close>

record profile_out =
  dim_size :: nat
  v_profile :: "float64 list"
  v_s :: "float64 list"
  v_lithk :: "float64 list"
  v_mask :: "float64 list"
  v_xvelmean :: "float64 list"
  v_yvelmean :: "float64 list"

text \<open>\<^verbatim>\<open>np.shape(trans[l])[0]\<close>\<close>

definition profile_size :: "point list list \<Rightarrow> nat \<Rightarrow> error + nat" where
  "profile_size trns l = and_then (getitem trns (int l)) (\<lambda>po. Inr (length po))"

text \<open>\<^verbatim>\<open>a[l][0:cut]\<close>\<close>

definition cut_row :: "grid \<Rightarrow> nat \<Rightarrow> nat \<Rightarrow> error + float64 list" where
  "cut_row a l c = and_then (getitem a (int l)) (\<lambda>row. Inr (take c row))"

text \<open>\<^verbatim>\<open>cuta = np.shape(trans[0])[0]; ncxa[:] = sav[0][0:cuta]; ...\<close> for transect \<^verbatim>\<open>l\<close>.\<close>

definition write_profile :: "point list list \<Rightarrow> buffers \<Rightarrow> nat \<Rightarrow> nat \<Rightarrow> error + profile_out" where
  "write_profile trns b sz l =
     and_then (profile_size trns l) (\<lambda>c.
     and_then (cut_row (sav b) l c) (\<lambda>xs.
     and_then (cut_row (sav b) l c) (\<lambda>ss.
     and_then (cut_row (Hav b) l c) (\<lambda>hs.
     and_then (cut_row (mav b) l c) (\<lambda>ms.
     and_then (cut_row (uav b) l c) (\<lambda>us.
     and_then (cut_row (vav b) l c) (\<lambda>vs.
     Inr \<lparr>dim_size = sz, v_profile = xs, v_s = ss, v_lithk = hs, v_mask = ms,
          v_xvelmean = us, v_yvelmean = vs\<rparr>)))))))"

text \<open>Running a statement for each transect number in turn.\<close>

fun for_each :: "(nat \<Rightarrow> error + 'a) \<Rightarrow> nat list \<Rightarrow> error + 'a list" where
  "for_each f [] = Inr []"
| "for_each f (l # rest) =
     and_then (f l) (\<lambda>r. and_then (for_each f rest) (\<lambda>rs. Inr (r # rs)))"

text \<open>
  The eight \<^verbatim>\<open>createDimension\<close> calls come first, then the eight groups of assignments.
\<close>

definition write_profiles :: "point list list \<Rightarrow> buffers \<Rightarrow> error + profile_out list" where
  "write_profiles trns b =
     and_then (for_each (profile_size trns) [0..<8]) (\<lambda>sizes.
     for_each (\<lambda>l. write_profile trns b (sizes ! l) l) [0..<8])"

record ncfile =
  nc_Time :: "float64 list"
  nc_X :: "float64 list"
  nc_Y :: "float64 list"
  nc_xvelmean :: grid
  nc_yvelmean :: grid
  nc_lithk :: grid
  nc_mask :: grid
  nc_calverate :: "grid list"
  nc_topg :: grid
  nc_iareafl :: "float64 list"
  nc_iareagr :: "float64 list"
  nc_lim :: "float64 list"
  nc_limnsw :: "float64 list"
  nc_tendlicalvf :: "float64 list"
  nc_tendligroundf :: "float64 list"
  nc_profiles :: "profile_out list"
  mask_flag_values :: string
  mask_flag_meanings :: string

definition write_file :: "prepared \<Rightarrow> error + ncfile" where
  "write_file pr =
     and_then (write_profiles (trans' pr) (bufs pr)) (\<lambda>outs.
     Inr \<lparr>nc_Time = exp1_t (snap pr), nc_X = exp1_x (snap pr), nc_Y = exp1_y (snap pr),
          nc_xvelmean = nan_where_zero (exp1_xvm (snap pr)),
          nc_yvelmean = nan_where_zero (exp1_yvm (snap pr)),
          nc_lithk = nan_where_zero (exp1_thk (snap pr)),
          nc_mask = exp1_mask (snap pr),
          nc_calverate = exp1_crate (snap pr),
          nc_topg = exp1_topg (snap pr),
          nc_iareafl = exp1_ts_afl (tsv pr), nc_iareagr = exp1_ts_agr (tsv pr),
          nc_lim = exp1_ts_lim (tsv pr), nc_limnsw = exp1_ts_limnsw (tsv pr),
          nc_tendlicalvf = exp1_ts_tendcf (tsv pr),
          nc_tendligroundf = exp1_ts_tendgf (tsv pr),
          nc_profiles = outs,
          mask_flag_values = ''1, 2, 3'',
          mask_flag_meanings = ''1=grounded ice, 2=floating ice, 3=open ocean''\<rparr>)"

text \<open>
  The whole script, as an effect on the files by name: the output file exists from the
  moment \<^verbatim>\<open>nc.Dataset(exp_outfile, 'w')\<close> is reached, and is complete once it is closed.
\<close>

datatype file_state = Incomplete | Complete ncfile

definition exp_outfile :: string where
  "exp_outfile = ''CalvingMIP_EXP1_PISM_PIK.nc''"

definition run ::
  "helpers \<Rightarrow> dataset \<Rightarrow> series \<Rightarrow> (string \<rightharpoonup> file_state)
     \<Rightarrow> error option \<times> (string \<rightharpoonup> file_state)" where
  "run h ds tsd files =
     (case prepare h ds tsd of
        Inl e \<Rightarrow> (Some e, files)
      | Inr pr \<Rightarrow>
          (case write_file pr of
             Inl e \<Rightarrow> (Some e, files(exp_outfile \<mapsto> Incomplete))
           | Inr f \<Rightarrow> (None, files(exp_outfile \<mapsto> Complete f))))"

section \<open>Notions used to state the properties\<close>

text \<open>
  The six sampler calls of the loop body for one point, in the order of the script, without
  the buffer writes between them.
\<close>

definition sample_values ::
  "helpers \<Rightarrow> snapshot \<Rightarrow> grid \<Rightarrow> grid \<Rightarrow> point
     \<Rightarrow> error + float64 \<times> float64 \<times> float64 \<times> float64 \<times> float64 \<times> float64" where
  "sample_values h sn xm ym p =
     (let i = \<lfloor>snd p\<rfloor>; j = \<lfloor>fst p\<rfloor>;
          di = fst p - of_int \<lfloor>fst p\<rfloor>; dj = snd p - of_int \<lfloor>snd p\<rfloor>
      in
       and_then (interpolate_along_transect h ym i j di dj) (\<lambda>x.
       and_then (interpolate_along_transect h xm i j di dj) (\<lambda>y.
       and_then (interpolate_along_transect h (exp1_thk sn) i j di dj) (\<lambda>th.
       and_then (interpolate_along_transect h (exp1_xvm sn) i j di dj) (\<lambda>u.
       and_then (interpolate_along_transect h (exp1_yvm sn) i j di dj) (\<lambda>v.
       and_then (nearest_along_transect h (exp1_mask sn) i j di dj) (\<lambda>m.
       Inr (x, y, th, u, v, m))))))))"

text \<open>
  The array \<open>a\<close> after \<^verbatim>\<open>a[l,k]=v\<close> has succeeded.
\<close>

definition upd :: "grid \<Rightarrow> nat \<Rightarrow> nat \<Rightarrow> float64 \<Rightarrow> grid" where
  "upd a l k v = a[l := (a ! l)[k := v]]"

text \<open>
  The buffers after the seven writes of the loop body for point \<open>k\<close> of transect \<open>l\<close>.
\<close>

definition put ::
  "buffers \<Rightarrow> nat \<Rightarrow> nat \<Rightarrow> float64 \<times> float64 \<times> float64 \<times> float64 \<times> float64 \<times> float64 \<Rightarrow> buffers" where
  "put b l k vs =
     (case vs of (x, y, th, u, v, m) \<Rightarrow>
        \<lparr>xav = upd (xav b) l k x, yav = upd (yav b) l k y, Hav = upd (Hav b) l k th,
         mav = upd (mav b) l k m, uav = upd (uav b) l k u, vav = upd (vav b) l k v,
         sav = upd (sav b) l k (f_sqrt (f_add (f_sq x) (f_sq y)))\<rparr>)"

text \<open>
  An array of \<open>n\<close> rows of \<^verbatim>\<open>300\<close> cells each.
\<close>

definition rect :: "nat \<Rightarrow> grid \<Rightarrow> bool" where
  "rect n a \<longleftrightarrow> length a = n \<and> list_all (\<lambda>row. length row = capacity) a"

text \<open>
  All seven buffers have \<open>n\<close> rows of \<^verbatim>\<open>300\<close> cells.
\<close>

definition fits :: "nat \<Rightarrow> buffers \<Rightarrow> bool" where
  "fits n b \<longleftrightarrow> rect n (xav b) \<and> rect n (yav b) \<and> rect n (Hav b) \<and> rect n (mav b)
     \<and> rect n (uav b) \<and> rect n (vav b) \<and> rect n (sav b)"

text \<open>
  What the buffers hold for one point: the entries of \<^verbatim>\<open>xav\<close>, \<^verbatim>\<open>yav\<close>, \<^verbatim>\<open>sav\<close>,
  \<^verbatim>\<open>Hav\<close>, \<^verbatim>\<open>uav\<close>, \<^verbatim>\<open>vav\<close> and \<^verbatim>\<open>mav\<close> at one index pair.
\<close>

type_synonym sample = "float64 \<times> float64 \<times> float64 \<times> float64 \<times> float64 \<times> float64 \<times> float64"

definition stored :: "buffers \<Rightarrow> nat \<Rightarrow> nat \<Rightarrow> sample" where
  "stored b l k =
     (xav b ! l ! k, yav b ! l ! k, sav b ! l ! k, Hav b ! l ! k, uav b ! l ! k,
      vav b ! l ! k, mav b ! l ! k)"

text \<open>
  The seven buffer entries that the loop body derives from the six sampled values.
\<close>

definition record_of ::
  "float64 \<times> float64 \<times> float64 \<times> float64 \<times> float64 \<times> float64 \<Rightarrow> sample" where
  "record_of vs =
     (case vs of (x, y, th, u, v, m) \<Rightarrow>
        (x, y, f_sqrt (f_add (f_sq x) (f_sq y)), th, u, v, m))"

text \<open>
  The entries of freshly allocated buffers.
\<close>

definition zero_sample :: sample where
  "zero_sample = (Fin 0, Fin 0, Fin 0, Fin 0, Fin 0, Fin 0, Fin 0)"

text \<open>
  None of the six sampler calls for point \<open>p\<close> raises.
\<close>

definition samplers_succeed :: "helpers \<Rightarrow> snapshot \<Rightarrow> grid \<Rightarrow> grid \<Rightarrow> point \<Rightarrow> bool" where
  "samplers_succeed h sn xm ym p \<longleftrightarrow> (case sample_values h sn xm ym p of Inl e \<Rightarrow> False | Inr vs \<Rightarrow> True)"

text \<open>
  The number of cells between index \<open>c\<close> and the nearest boundary index (\<open>0\<close> or
  \<open>n - 1\<close>) of an axis of \<open>n\<close> cells.
\<close>

definition boundary_distance :: "int \<Rightarrow> int \<Rightarrow> int" where
  "boundary_distance n c = min (c - 0) ((n - 1) - c)"

text \<open>
  The cell \<open>v\<close> is a value of the type: any float, or an integer within the range of the
  integer type.
\<close>

fun stored_as :: "dtype \<Rightarrow> float64 \<Rightarrow> bool" where
  "stored_as Float64 v = True"
| "stored_as (Signed w) (Fin r) =
     (r = of_int \<lfloor>r\<rfloor> \<and> - (2 ^ w div 2) \<le> \<lfloor>r\<rfloor> \<and> \<lfloor>r\<rfloor> < 2 ^ w div 2)"
| "stored_as (Unsigned w) (Fin r) = (r = of_int \<lfloor>r\<rfloor> \<and> 0 \<le> \<lfloor>r\<rfloor> \<and> \<lfloor>r\<rfloor> < 2 ^ w)"
| "stored_as dt NaN = False"

section \<open>Example inputs\<close>

text \<open>
  Concrete inputs at which the theorems below are instantiated. The example helper module
  generates the two end points of every transect, and both samplers return the cell
  \<^verbatim>\<open>field[i][j]\<close>, raising when it does not exist.
\<close>

definition ex_helpers :: helpers where
  "ex_helpers =
     \<lparr>get_troughs = (\<lambda>trs d. Inr (map (\<lambda>t.
          [(of_int (fst (fst t)), of_int (snd (fst t))),
           (of_int (fst (snd t)), of_int (snd (snd t)))]) trs)),
      interpolate_along_transect =
        (\<lambda>a i j di dj. and_then (getitem a i) (\<lambda>row. getitem row j)),
      nearest_along_transect =
        (\<lambda>a i j di dj. and_then (getitem a i) (\<lambda>row. getitem row j))\<rparr>"

text \<open>
  A square grid with the same value in every cell.
\<close>

definition ex_grid :: "nat \<Rightarrow> real \<Rightarrow> grid" where
  "ex_grid m v = replicate m (replicate m (Fin v))"

text \<open>
  A snapshot file on an \<open>m \<times> m\<close> grid with one time slice, the velocity and thickness
  variables under the given names, and the mask stored as signed bytes.
\<close>

definition ex_dataset :: "string \<Rightarrow> string \<Rightarrow> string \<Rightarrow> nat \<Rightarrow> dataset" where
  "ex_dataset xname yname hname m =
     \<lparr>vars1 = map_of
        [(''x'', map (\<lambda>i. Fin (real i)) [0..<m]),
         (''y'', map (\<lambda>i. Fin (real i)) [0..<m]),
         (''time'', [Fin 0])],
      vars3 = map_of
        [(xname, [ex_grid m 1]), (yname, [ex_grid m 2]), (hname, [ex_grid m 100]),
         (''mask'', [ex_grid m 2]),
         (''calvingmip_calving_rate'', [ex_grid m 0]),
         (''topg'', [ex_grid m (- 1)])],
      mask_dtype = Signed 8\<rparr>"

definition ex_series :: series where
  "ex_series = map_of
     [(''time'', replicate 6 (Fin 0)), (''iareafl'', replicate 6 (Fin 1)),
      (''iareagr'', replicate 6 (Fin 1)), (''lim'', replicate 6 (Fin 1)),
      (''limnsw'', replicate 6 (Fin 1)), (''tendlicalvf'', replicate 6 (Fin 1)),
      (''tendligroundf'', replicate 6 (Fin 1))]"

text \<open>
  A snapshot on a grid of two rows and one column, its meshes and eight short transects.
\<close>

definition ex_snapshot :: snapshot where
  "ex_snapshot =
     \<lparr>exp1_x = [Fin 3, Fin 0], exp1_y = [Fin 4], exp1_t = [Fin 0],
      exp1_xvm = [[Fin 0], [Fin 5]], exp1_yvm = [[NaN], [Fin 0]],
      exp1_thk = [[Fin 0], [Fin 7]], exp1_mask = [[Fin 1], [Fin 2]],
      exp1_crate = [], exp1_topg = [[Fin 0], [Fin (- 2)]]\<rparr>"

definition ex_trans :: "point list list" where
  "ex_trans =
     [[(0, 0), (0, 1)], [(0, 0)], [], [(0, 1)], [(0, 0)], [(0, 1)], [(0, 0)],
      [(0, 0), (0, 1), (0, 0)]]"

definition ex_prepared :: prepared where
  "ex_prepared =
     \<lparr>snap = ex_snapshot,
      tsv = \<lparr>exp1_ts_t = [Fin 0], exp1_ts_afl = [Fin 1], exp1_ts_agr = [Fin 1],
             exp1_ts_lim = [Fin 1], exp1_ts_limnsw = [Fin 1], exp1_ts_tendcf = [Fin 1],
             exp1_ts_tendgf = [Fin 1]\<rparr>,
      trans' = ex_trans, bufs = allocate 8,
      exp1_xm = [[Fin 3], [Fin 0]], exp1_ym = [[Fin 4], [Fin 4]],
      profiles' = Map.empty\<rparr>"

section \<open>Sequencing and indexing\<close>

lemma and_then_Inl [simp]: "and_then (Inl e) f = Inl e"
  by (simp add: and_then_def)

lemma and_then_Inr [simp]: "and_then (Inr a) f = f a"
  by (simp add: and_then_def)

lemma and_then_eq_Inr: "and_then m f = Inr y \<longleftrightarrow> (\<exists>a. m = Inr a \<and> f a = Inr y)"
  by (cases m) simp_all

lemma and_then_eq_Inl:
  "and_then m f = Inl e \<longleftrightarrow> m = Inl e \<or> (\<exists>a. m = Inr a \<and> f a = Inl e)"
  by (cases m) simp_all

lemma getitem_nat: "getitem xs (int i) = (if i < length xs then Inr (xs ! i) else Inl IndexError)"
  by (simp add: getitem_def)

section \<open>Properties of the transects\<close>

lemmas points_defs =
  points_A_def points_B_def points_C_def points_D_def
  points_E_def points_F_def points_G_def points_H_def

lemma Mp_odd: "odd Mx \<Longrightarrow> 2 * Mp Mx = Mx - 1"
  unfolding Mp_def by (auto elim!: oddE)

lemma Mp_even: "even Mx \<Longrightarrow> 0 < Mx \<Longrightarrow> Mp Mx = Mx div 2 - 1"
  unfolding Mp_def by (auto elim!: evenE)

lemma length_point_names: "length point_names = 8"
  by (simp add: point_names_def)

text \<open>
  Claim C4. On a grid with an exact centre cell (odd \<open>Mx\<close> and \<open>My\<close>) there are eight
  transects, A to H, and every one of them starts at the index pair \<open>(Mp, Mp)\<close>, where
  \<open>Mp\<close> is exactly \<open>(Mx - 1) / 2\<close>.
\<close>

theorem transects_share_start:
  assumes "odd Mx" and "odd My"
  shows "length (transects Mx My) = 8
     \<and> (\<forall>t \<in> set (transects Mx My). fst t = (Mp Mx, Mp Mx))
     \<and> 2 * Mp Mx = Mx - 1"
  using assms(1) by (simp add: transects_def points_defs Mp_odd)

text \<open>
  On the grid of 5 by 5 cells all eight transects start at \<open>(2, 2)\<close>.
\<close>

theorem transects_share_start_witness:
  "odd (5::int) \<and> length (transects 5 5) = 8
     \<and> map fst (transects 5 5) = replicate 8 (2, 2) \<and> 2 * Mp 5 = (5::int) - 1"
  using transects_share_start [of 5 5]
  by (simp add: transects_def points_defs Mp_def numeral_eq_Suc)

text \<open>
  Claim C8, as amended. On a grid of at least 5 by 5 cells each of the eight transects ends
  at an edge midpoint (one coordinate is \<open>Mp\<close>, the other is \<open>2\<close> or the size of its axis
  less \<open>2\<close>) or at a near-corner point (each coordinate is \<open>2\<close> or the size of its axis
  less \<open>2\<close>). An end coordinate that is not \<open>Mp\<close> is therefore either the index \<open>2\<close>,
  two cells from the boundary index \<open>0\<close>, or the index \<open>Mx - 2\<close> (\<open>My - 2\<close>), one cell
  from the boundary index \<open>Mx - 1\<close> (\<open>My - 1\<close>).
\<close>

theorem transect_ends:
  assumes "5 \<le> Mx" and "5 \<le> My"
  shows "\<forall>t \<in> set (transects Mx My).
     (fst (snd t) = Mp Mx \<and> snd (snd t) \<in> {2, My - 2}
        \<or> snd (snd t) = Mp Mx \<and> fst (snd t) \<in> {2, Mx - 2}
        \<or> fst (snd t) \<in> {2, Mx - 2} \<and> snd (snd t) \<in> {2, My - 2})
   \<and> (fst (snd t) = Mp Mx
        \<or> fst (snd t) = 2 \<and> boundary_distance Mx (fst (snd t)) = 2
        \<or> fst (snd t) = Mx - 2 \<and> boundary_distance Mx (fst (snd t)) = 1)
   \<and> (snd (snd t) = Mp Mx
        \<or> snd (snd t) = 2 \<and> boundary_distance My (snd (snd t)) = 2
        \<or> snd (snd t) = My - 2 \<and> boundary_distance My (snd (snd t)) = 1)"
  using assms by (simp add: transects_def points_defs boundary_distance_def)

text \<open>
  The ends of the eight transects on the grid of 7 by 7 cells, where \<open>Mp = 3\<close>.
\<close>

theorem transect_ends_witness:
  "(5::int) \<le> 7
   \<and> map snd (transects 7 7)
       = [(3, 5), (5, 5), (5, 3), (5, 2), (3, 2), (2, 2), (2, 3), (2, 5)]
   \<and> Mp 7 = 3 \<and> boundary_distance 7 2 = 2 \<and> boundary_distance 7 5 = 1"
  using transect_ends [of 7 7]
  by (simp add: transects_def points_defs boundary_distance_def Mp_def)

text \<open>
  Claim C8 as stated fails on the grid of 7 by 7 cells: transect C ends at row \<open>5\<close>, which
  is not \<open>Mp = 3\<close> and is one cell, not two, from the nearest boundary index \<open>6\<close>.
\<close>

theorem transect_ends_counterexample:
  "points_C 7 7 \<in> set (transects 7 7) \<and> fst (snd (points_C 7 7)) \<noteq> Mp 7
   \<and> boundary_distance 7 (fst (snd (points_C 7 7))) \<noteq> 2"
  by (simp add: transects_def points_defs boundary_distance_def Mp_def)

section \<open>Resolution of the field names\<close>

lemma read3_Inr: "read3 ds name = Inr a \<Longrightarrow> name \<in> dom (vars3 ds)"
  by (auto simp: read3_def split: option.splits)

lemma read_primary_Inr:
  "read_primary ds = Inr r \<longleftrightarrow>
     (\<exists>a b c. read3 ds ''xvelmean'' = Inr a \<and> read3 ds ''yvelmean'' = Inr b
        \<and> read3 ds ''lithk'' = Inr c \<and> r = (per_year a, per_year b, c))"
  by (auto simp: read_primary_def and_then_eq_Inr)

lemma read_fallback_Inr:
  "read_fallback ds = Inr r \<longleftrightarrow>
     (\<exists>a b c. read3 ds ''u_ssa'' = Inr a \<and> read3 ds ''v_ssa'' = Inr b
        \<and> read3 ds ''thk'' = Inr c \<and> r = (per_year a, per_year b, c))"
  by (auto simp: read_fallback_def and_then_eq_Inr)

lemma read_primary_needs_names:
  "\<not> {''xvelmean'', ''yvelmean'', ''lithk''} \<subseteq> dom (vars3 ds) \<Longrightarrow> \<exists>e. read_primary ds = Inl e"
  by (cases "read_primary ds") (auto simp: read_primary_Inr dest!: read3_Inr)

lemma read_fallback_needs_names:
  "\<not> {''u_ssa'', ''v_ssa'', ''thk''} \<subseteq> dom (vars3 ds) \<Longrightarrow> \<exists>e. read_fallback ds = Inl e"
  by (cases "read_fallback ds") (auto simp: read_fallback_Inr dest!: read3_Inr)

lemma read_snapshot_needs_fields:
  "read_velocity_thickness ds = Inl e \<Longrightarrow> \<exists>e'. read_snapshot ds = Inl e'"
  by (cases "read_snapshot ds") (auto simp: read_snapshot_def and_then_eq_Inr)

lemma define_profiles_needs_snapshot:
  "read_snapshot ds = Inl e \<Longrightarrow> define_profiles ds tsd = Inl e"
  by (simp add: define_profiles_def)

lemma prepare_needs_snapshot: "read_snapshot ds = Inl e \<Longrightarrow> prepare h ds tsd = Inl e"
  by (simp add: prepare_def define_profiles_needs_snapshot)

lemma run_needs_snapshot: "read_snapshot ds = Inl e \<Longrightarrow> run h ds tsd files = (Some e, files)"
  by (simp add: run_def prepare_needs_snapshot)

text \<open>
  Claim C1. The velocity and thickness fields are read under the names \<^verbatim>\<open>xvelmean\<close>,
  \<^verbatim>\<open>yvelmean\<close>, \<^verbatim>\<open>lithk\<close> first: when that read succeeds its result is used, and only
  when it fails are the names \<^verbatim>\<open>u_ssa\<close>, \<^verbatim>\<open>v_ssa\<close>, \<^verbatim>\<open>thk\<close> read instead. In both
  branches the two velocity fields are the stored ones multiplied cell by cell by the same
  constant \<^verbatim>\<open>secperyear\<close>, and the thickness is the stored one. When neither name set is
  present in full the run ends with an error and the files are as before: no output file
  is produced and no default value stands in for a field.
\<close>

theorem field_name_resolution:
  "(\<forall>r. read_primary ds = Inr r \<longrightarrow> read_velocity_thickness ds = Inr r)
   \<and> (\<forall>e. read_primary ds = Inl e \<longrightarrow> read_velocity_thickness ds = read_fallback ds)
   \<and> (\<forall>xv yv th. read_primary ds = Inr (xv, yv, th) \<longleftrightarrow>
        (\<exists>a b. read3 ds ''xvelmean'' = Inr a \<and> read3 ds ''yvelmean'' = Inr b
           \<and> read3 ds ''lithk'' = Inr th
           \<and> xv = map (map (\<lambda>v. f_mul v (Fin (of_int secperyear)))) a
           \<and> yv = map (map (\<lambda>v. f_mul v (Fin (of_int secperyear)))) b))
   \<and> (\<forall>xv yv th. read_fallback ds = Inr (xv, yv, th) \<longleftrightarrow>
        (\<exists>a b. read3 ds ''u_ssa'' = Inr a \<and> read3 ds ''v_ssa'' = Inr b
           \<and> read3 ds ''thk'' = Inr th
           \<and> xv = map (map (\<lambda>v. f_mul v (Fin (of_int secperyear)))) a
           \<and> yv = map (map (\<lambda>v. f_mul v (Fin (of_int secperyear)))) b))
   \<and> (\<not> {''xvelmean'', ''yvelmean'', ''lithk''} \<subseteq> dom (vars3 ds)
        \<and> \<not> {''u_ssa'', ''v_ssa'', ''thk''} \<subseteq> dom (vars3 ds)
      \<longrightarrow> (\<exists>e. run h ds tsd files = (Some e, files)))"
proof (intro conjI allI impI)
  fix r assume "read_primary ds = Inr r"
  then show "read_velocity_thickness ds = Inr r"
    by (simp add: read_velocity_thickness_def)
next
  fix e assume "read_primary ds = Inl e"
  then show "read_velocity_thickness ds = read_fallback ds"
    by (simp add: read_velocity_thickness_def)
next
  fix xv yv th
  show "read_primary ds = Inr (xv, yv, th) \<longleftrightarrow>
        (\<exists>a b. read3 ds ''xvelmean'' = Inr a \<and> read3 ds ''yvelmean'' = Inr b
           \<and> read3 ds ''lithk'' = Inr th
           \<and> xv = map (map (\<lambda>v. f_mul v (Fin (of_int secperyear)))) a
           \<and> yv = map (map (\<lambda>v. f_mul v (Fin (of_int secperyear)))) b)"
    by (auto simp: read_primary_Inr per_year_def)
next
  fix xv yv th
  show "read_fallback ds = Inr (xv, yv, th) \<longleftrightarrow>
        (\<exists>a b. read3 ds ''u_ssa'' = Inr a \<and> read3 ds ''v_ssa'' = Inr b
           \<and> read3 ds ''thk'' = Inr th
           \<and> xv = map (map (\<lambda>v. f_mul v (Fin (of_int secperyear)))) a
           \<and> yv = map (map (\<lambda>v. f_mul v (Fin (of_int secperyear)))) b)"
    by (auto simp: read_fallback_Inr per_year_def)
next
  assume a: "\<not> {''xvelmean'', ''yvelmean'', ''lithk''} \<subseteq> dom (vars3 ds)
        \<and> \<not> {''u_ssa'', ''v_ssa'', ''thk''} \<subseteq> dom (vars3 ds)"
  from a obtain e1 where e1: "read_primary ds = Inl e1"
    using read_primary_needs_names by blast
  from a obtain e2 where e2: "read_fallback ds = Inl e2"
    using read_fallback_needs_names by blast
  from e1 e2 have "read_velocity_thickness ds = Inl e2"
    by (simp add: read_velocity_thickness_def)
  then obtain e where "read_snapshot ds = Inl e"
    using read_snapshot_needs_fields by blast
  then show "\<exists>e. run h ds tsd files = (Some e, files)"
    by (simp add: run_needs_snapshot)
qed

text \<open>
  At a dataset with the primary names the primary read is used; at one with only the
  fallback names the primary read raises and the fallback gives the same scaled fields; at
  one with neither the run stops at the key \<^verbatim>\<open>u_ssa\<close> and no file exists afterwards.
\<close>

theorem field_name_resolution_witness:
  "read_velocity_thickness (ex_dataset ''xvelmean'' ''yvelmean'' ''lithk'' 4)
     = Inr (ex_grid 4 31536000, ex_grid 4 63072000, ex_grid 4 100)
   \<and> read_primary (ex_dataset ''u_ssa'' ''v_ssa'' ''thk'' 4) = Inl (KeyError ''xvelmean'')
   \<and> read_velocity_thickness (ex_dataset ''u_ssa'' ''v_ssa'' ''thk'' 4)
     = Inr (ex_grid 4 31536000, ex_grid 4 63072000, ex_grid 4 100)
   \<and> run ex_helpers (ex_dataset ''a'' ''b'' ''c'' 4) ex_series Map.empty
     = (Some (KeyError ''u_ssa''), Map.empty)"
proof -
  let ?none = "ex_dataset ''a'' ''b'' ''c'' 4"
  have absent: "\<not> {''xvelmean'', ''yvelmean'', ''lithk''} \<subseteq> dom (vars3 ?none)
        \<and> \<not> {''u_ssa'', ''v_ssa'', ''thk''} \<subseteq> dom (vars3 ?none)"
    by (simp add: ex_dataset_def dom_def)
  have "read_snapshot ?none = Inl (KeyError ''u_ssa'')"
    by (simp add: read_snapshot_def ex_dataset_def read1_def read3_def
        read_velocity_thickness_def read_primary_def read_fallback_def getitem_def tex_def)
  then have fails: "run ex_helpers ?none ex_series Map.empty = (Some (KeyError ''u_ssa''), Map.empty)"
    using field_name_resolution [of ?none ex_helpers ex_series Map.empty] absent
    by (auto simp: run_needs_snapshot)
  have "read_velocity_thickness (ex_dataset ''xvelmean'' ''yvelmean'' ''lithk'' 4)
     = Inr (ex_grid 4 31536000, ex_grid 4 63072000, ex_grid 4 100)"
    by (simp add: read_velocity_thickness_def read_primary_def read3_def ex_dataset_def
        getitem_def tex_def per_year_def ex_grid_def secperyear_def)
  moreover have "read_primary (ex_dataset ''u_ssa'' ''v_ssa'' ''thk'' 4)
      = Inl (KeyError ''xvelmean'')"
    by (simp add: read_primary_def read3_def ex_dataset_def)
  moreover have "read_velocity_thickness (ex_dataset ''u_ssa'' ''v_ssa'' ''thk'' 4)
     = Inr (ex_grid 4 31536000, ex_grid 4 63072000, ex_grid 4 100)"
    by (simp add: read_velocity_thickness_def read_primary_def read_fallback_def read3_def
        ex_dataset_def getitem_def tex_def per_year_def ex_grid_def secperyear_def)
  ultimately show ?thesis using fails by simp
qed

section \<open>The sampling loop\<close>

lemma set2_rect:
  "rect n a \<Longrightarrow> l < n \<Longrightarrow> k < capacity \<Longrightarrow> set2 a l k v = Inr (upd a l k v)"
  by (auto simp: set2_def upd_def rect_def list_all_length)

lemma set2_rect_out:
  "rect n a \<Longrightarrow> \<not> (l < n \<and> k < capacity) \<Longrightarrow> set2 a l k v = Inl IndexError"
  by (auto simp: set2_def upd_def rect_def list_all_length)

lemma rect_upd: "rect n a \<Longrightarrow> rect n (upd a l k v)"
proof -
  assume r: "rect n a"
  have "length (upd a l k v ! i) = capacity" if "i < n" for i
    using r that by (cases "i = l") (simp_all add: rect_def upd_def list_all_length)
  with r show ?thesis
    by (simp add: rect_def upd_def list_all_length)
qed

lemma rect_zeros: "rect n (zeros n capacity)"
  by (simp add: rect_def zeros_def list_all_length)

lemma fits_allocate: "fits n (allocate n)"
  by (simp add: fits_def allocate_def rect_zeros)

lemma fits_put: "fits n b \<Longrightarrow> fits n (put b l k vs)"
  by (cases vs) (simp add: fits_def put_def rect_upd)

lemma sample_point_in_range:
  assumes "fits n b" and "l < n" and "k < capacity"
  shows "sample_point h sn xm ym l k p b =
     (case sample_values h sn xm ym p of Inl e \<Rightarrow> Inl e | Inr vs \<Rightarrow> Inr (put b l k vs))"
proof -
  have s: "set2 (xav b) l k v = Inr (upd (xav b) l k v)"
    "set2 (yav b) l k v = Inr (upd (yav b) l k v)"
    "set2 (sav b) l k v = Inr (upd (sav b) l k v)"
    "set2 (Hav b) l k v = Inr (upd (Hav b) l k v)"
    "set2 (uav b) l k v = Inr (upd (uav b) l k v)"
    "set2 (vav b) l k v = Inr (upd (vav b) l k v)"
    "set2 (mav b) l k v = Inr (upd (mav b) l k v)" for v
    using assms by (auto simp: fits_def intro!: set2_rect [where n = n])
  show ?thesis
    by (simp add: sample_point_def sample_values_def Let_def s put_def and_then_def
        split: sum.splits)
qed

lemma sample_point_out_of_range:
  assumes "fits n b" and "\<not> (l < n \<and> k < capacity)"
  shows "sample_point h sn xm ym l k p b =
     (case interpolate_along_transect h ym \<lfloor>snd p\<rfloor> \<lfloor>fst p\<rfloor>
              (fst p - of_int \<lfloor>fst p\<rfloor>) (snd p - of_int \<lfloor>snd p\<rfloor>) of
        Inl e \<Rightarrow> Inl e | Inr x \<Rightarrow> Inl IndexError)"
proof -
  have "set2 (xav b) l k v = Inl IndexError" for v
    using assms by (auto simp: fits_def intro!: set2_rect_out [where n = n])
  then show ?thesis
    by (simp add: sample_point_def Let_def and_then_def split: sum.splits)
qed

lemma sample_point_eq_Inr:
  assumes "fits n b"
  shows "sample_point h sn xm ym l k p b = Inr b' \<longleftrightarrow>
     l < n \<and> k < capacity \<and> (\<exists>vs. sample_values h sn xm ym p = Inr vs \<and> b' = put b l k vs)"
proof (cases "l < n \<and> k < capacity")
  case True
  then show ?thesis
    using sample_point_in_range [OF assms, of l k] by (auto split: sum.splits)
next
  case False
  then show ?thesis
    using sample_point_out_of_range [OF assms, of l k] by (auto split: sum.splits)
qed

lemma upd_nth:
  "rect n a \<Longrightarrow> l < n \<Longrightarrow> k < capacity \<Longrightarrow>
     upd a l k v ! l' ! k' = (if l' = l \<and> k' = k then v else a ! l' ! k')"
  by (auto simp: upd_def rect_def list_all_length nth_list_update)

lemma stored_put:
  assumes "fits n b" and "l < n" and "k < capacity"
  shows "stored (put b l k vs) l' k' =
     (if l' = l \<and> k' = k then record_of vs else stored b l' k')"
  using assms
  by (cases vs) (simp add: stored_def put_def record_of_def fits_def upd_nth [where n = n])

lemma sample_transect_Inr:
  assumes "fits n b"
    and "sample_transect h sn xm ym l k ps (b, prof) = Inr (b', prof')"
  shows "fits n b'
     \<and> (ps \<noteq> [] \<longrightarrow> l < n \<and> k + length ps \<le> capacity)
     \<and> (\<forall>j<length ps. \<exists>vs. sample_values h sn xm ym (ps ! j) = Inr vs
            \<and> stored b' l (k + j) = record_of vs)
     \<and> (\<forall>l' k'. l' \<noteq> l \<or> k' < k \<or> k + length ps \<le> k' \<longrightarrow> stored b' l' k' = stored b l' k')"
  using assms
proof (induction ps arbitrary: k b prof)
  case Nil
  then show ?case by simp
next
  case (Cons p ps)
  from Cons.prems obtain b1 where
    b1: "sample_point h sn xm ym l k p b = Inr b1"
    and rest: "sample_transect h sn xm ym l (Suc k) ps
       (b1, prof @ [(xav b1 ! l ! k, yav b1 ! l ! k, sav b1 ! l ! k)]) = Inr (b', prof')"
    by (auto simp: and_then_eq_Inr)
  from b1 Cons.prems(1) obtain vs where
    l: "l < n" and k: "k < capacity"
    and vs: "sample_values h sn xm ym p = Inr vs" and put: "b1 = put b l k vs"
    by (auto simp: sample_point_eq_Inr)
  have f1: "fits n b1"
    using Cons.prems(1) put by (simp add: fits_put)
  note ih = Cons.IH [OF f1 rest]
  have here: "stored b' l k = record_of vs"
  proof -
    have "stored b' l k = stored b1 l k" using ih by simp
    then show ?thesis
      using stored_put [OF Cons.prems(1) l k] put by simp
  qed
  have len: "k + length (p # ps) \<le> capacity"
  proof (cases ps)
    case Nil
    then show ?thesis using k by simp
  next
    case (Cons q qs)
    then show ?thesis using ih by simp
  qed
  have pts: "\<exists>vs. sample_values h sn xm ym ((p # ps) ! j) = Inr vs
            \<and> stored b' l (k + j) = record_of vs" if "j < length (p # ps)" for j
  proof (cases j)
    case 0
    then show ?thesis using vs here by simp
  next
    case (Suc i)
    then show ?thesis using ih that by simp
  qed
  have frame: "stored b' l' k' = stored b l' k'"
    if "l' \<noteq> l \<or> k' < k \<or> k + length (p # ps) \<le> k'" for l' k'
  proof -
    have "stored b' l' k' = stored b1 l' k'" using ih that by auto
    also have "\<dots> = stored b l' k'"
      using stored_put [OF Cons.prems(1) l k] put that by auto
    finally show ?thesis .
  qed
  from ih l len pts frame show ?case by blast
qed

lemma samplers_succeedD:
  "samplers_succeed h sn xm ym p \<Longrightarrow> \<exists>vs. sample_values h sn xm ym p = Inr vs"
  by (cases "sample_values h sn xm ym p") (auto simp: samplers_succeed_def)

lemma samplers_succeed_first:
  "samplers_succeed h sn xm ym p \<Longrightarrow>
     \<exists>x. interpolate_along_transect h ym \<lfloor>snd p\<rfloor> \<lfloor>fst p\<rfloor>
              (fst p - of_int \<lfloor>fst p\<rfloor>) (snd p - of_int \<lfloor>snd p\<rfloor>) = Inr x"
  by (auto simp: samplers_succeed_def sample_values_def Let_def and_then_eq_Inr split: sum.splits)

lemma sample_transect_succeeds:
  assumes "fits n b" and "l < n" and "k + length ps \<le> capacity"
    and "list_all (samplers_succeed h sn xm ym) ps"
  shows "\<exists>r. sample_transect h sn xm ym l k ps (b, prof) = Inr r"
  using assms
proof (induction ps arbitrary: k b prof)
  case Nil
  then show ?case by simp
next
  case (Cons p ps)
  from Cons.prems have "samplers_succeed h sn xm ym p" by simp
  then obtain vs where vs: "sample_values h sn xm ym p = Inr vs"
    using samplers_succeedD by blast
  have k: "k < capacity" using Cons.prems by simp
  have sp: "sample_point h sn xm ym l k p b = Inr (put b l k vs)"
    using sample_point_in_range [OF Cons.prems(1,2) k] vs by simp
  have "\<exists>r. sample_transect h sn xm ym l (Suc k) ps (put b l k vs, prof') = Inr r" for prof'
    using Cons.IH [of "put b l k vs" "Suc k"] Cons.prems by (simp add: fits_put)
  then show ?case using sp by simp
qed

lemma sample_transect_overflows:
  assumes "fits n b" and "capacity < k + length ps" and "k \<le> capacity"
    and "list_all (samplers_succeed h sn xm ym) ps"
  shows "sample_transect h sn xm ym l k ps (b, prof) = Inl IndexError"
  using assms
proof (induction ps arbitrary: k b prof)
  case Nil
  then show ?case by simp
next
  case (Cons p ps)
  from Cons.prems have "samplers_succeed h sn xm ym p" by simp
  then obtain vs where vs: "sample_values h sn xm ym p = Inr vs"
    using samplers_succeedD by blast
  show ?case
  proof (cases "l < n \<and> k < capacity")
    case True
    then have sp: "sample_point h sn xm ym l k p b = Inr (put b l k vs)"
      using sample_point_in_range [OF Cons.prems(1)] vs by simp
    have "sample_transect h sn xm ym l (Suc k) ps (put b l k vs, prof') = Inl IndexError" for prof'
      using Cons.IH [of "put b l k vs" "Suc k"] Cons.prems True by (simp add: fits_put)
    then show ?thesis using sp by simp
  next
    case False
    from Cons.prems have "samplers_succeed h sn xm ym p" by simp
    then obtain x where
      "interpolate_along_transect h ym \<lfloor>snd p\<rfloor> \<lfloor>fst p\<rfloor>
              (fst p - of_int \<lfloor>fst p\<rfloor>) (snd p - of_int \<lfloor>snd p\<rfloor>) = Inr x"
      using samplers_succeed_first by blast
    then have "sample_point h sn xm ym l k p b = Inl IndexError"
      using sample_point_out_of_range [OF Cons.prems(1) False] by simp
    then show ?thesis by simp
  qed
qed

lemma sample_all_Inr:
  assumes "fits n b"
    and "sample_all h sn xm ym l trns (b, profs) = Inr (b', profs')"
  shows "fits n b'
     \<and> (trns \<noteq> [] \<longrightarrow> l + length trns \<le> 8)
     \<and> (\<forall>i<length trns. trns ! i \<noteq> [] \<longrightarrow> l + i < n \<and> length (trns ! i) \<le> capacity)
     \<and> (\<forall>i<length trns. \<forall>k<length (trns ! i).
           \<exists>vs. sample_values h sn xm ym (trns ! i ! k) = Inr vs
              \<and> stored b' (l + i) k = record_of vs)
     \<and> (\<forall>l' k'. l' < l \<or> l + length trns \<le> l' \<or> length (trns ! (l' - l)) \<le> k'
           \<longrightarrow> stored b' l' k' = stored b l' k')"
  using assms
proof (induction trns arbitrary: l b profs)
  case Nil
  then show ?case by simp
next
  case (Cons po rest)
  from Cons.prems obtain b1 prof where
    tr: "sample_transect h sn xm ym l 0 po (b, []) = Inr (b1, prof)"
    and nm: "l < 8"
    and more: "sample_all h sn xm ym (Suc l) rest
        (b1, profs(point_names ! l \<mapsto> prof)) = Inr (b', profs')"
    by (auto simp: and_then_eq_Inr getitem_nat length_point_names split: if_splits)
  note t = sample_transect_Inr [OF Cons.prems(1) tr]
  from t have f1: "fits n b1" by simp
  note ih = Cons.IH [OF f1 more]
  have names: "l + length (po # rest) \<le> 8"
  proof (cases rest)
    case Nil
    then show ?thesis using nm by simp
  next
    case (Cons q qs)
    then show ?thesis using ih by simp
  qed
  have sizes: "l + i < n \<and> length ((po # rest) ! i) \<le> capacity"
    if "i < length (po # rest)" and "(po # rest) ! i \<noteq> []" for i
  proof (cases i)
    case 0
    then show ?thesis using t that by simp
  next
    case (Suc i')
    then show ?thesis using ih that by simp
  qed
  have keep: "stored b' l k = stored b1 l k" for k
    using ih by simp
  have pts: "\<exists>vs. sample_values h sn xm ym ((po # rest) ! i ! k) = Inr vs
              \<and> stored b' (l + i) k = record_of vs"
    if "i < length (po # rest)" and "k < length ((po # rest) ! i)" for i k
  proof (cases i)
    case 0
    then show ?thesis using t that keep by simp
  next
    case (Suc i')
    then show ?thesis using ih that by simp
  qed
  have frame: "stored b' l' k' = stored b l' k'"
    if "l' < l \<or> l + length (po # rest) \<le> l' \<or> length ((po # rest) ! (l' - l)) \<le> k'"
    for l' k'
  proof (cases "l' = l")
    case True
    then have "length po \<le> k'" using that by simp
    then have "stored b1 l k' = stored b l k'" using t by simp
    then show ?thesis using keep True by simp
  next
    case False
    have "stored b' l' k' = stored b1 l' k'"
    proof (cases "l' < l")
      case True
      then show ?thesis using ih by simp
    next
      case ge: False
      then have "l' - l = Suc (l' - Suc l)" using False by simp
      then show ?thesis using ih that ge False by auto
    qed
    also have "\<dots> = stored b l' k'" using t False by simp
    finally show ?thesis .
  qed
  from ih names sizes pts frame show ?case by blast
qed

lemma sample_all_succeeds:
  assumes "fits n b" and "l + length trns \<le> n" and "l + length trns \<le> 8"
    and "list_all (\<lambda>po. length po \<le> capacity) trns"
    and "list_all (list_all (samplers_succeed h sn xm ym)) trns"
  shows "\<exists>r. sample_all h sn xm ym l trns (b, profs) = Inr r"
  using assms
proof (induction trns arbitrary: l b profs)
  case Nil
  then show ?case by simp
next
  case (Cons po rest)
  have "\<exists>r. sample_transect h sn xm ym l 0 po (b, []) = Inr r"
    using sample_transect_succeeds [of n b l 0 po h sn xm ym] Cons.prems by simp
  then obtain b1 prof where tr: "sample_transect h sn xm ym l 0 po (b, []) = Inr (b1, prof)"
    by auto
  have f1: "fits n b1"
    using sample_transect_Inr [OF Cons.prems(1) tr] by simp
  have "\<exists>r. sample_all h sn xm ym (Suc l) rest (b1, profs') = Inr r" for profs'
    using Cons.IH [OF f1, of "Suc l"] Cons.prems by simp
  moreover have "getitem point_names (int l) = Inr (point_names ! l)"
    using Cons.prems by (simp add: getitem_nat length_point_names)
  ultimately show ?case using tr by simp
qed

lemma sample_all_overflows:
  assumes "fits n b" and "l + length trns \<le> n"
    and "list_all (list_all (samplers_succeed h sn xm ym)) trns"
    and "\<not> list_all (\<lambda>po. length po \<le> capacity) trns \<or> (trns \<noteq> [] \<and> 8 < l + length trns)"
  shows "sample_all h sn xm ym l trns (b, profs) = Inl IndexError"
  using assms
proof (induction trns arbitrary: l b profs)
  case Nil
  then show ?case by simp
next
  case (Cons po rest)
  show ?case
  proof (cases "length po \<le> capacity")
    case False
    then have "sample_transect h sn xm ym l 0 po (b, []) = Inl IndexError"
      using sample_transect_overflows [of n b 0 po h sn xm ym l] Cons.prems by simp
    then show ?thesis by simp
  next
    case True
    have "\<exists>r. sample_transect h sn xm ym l 0 po (b, []) = Inr r"
      using sample_transect_succeeds [of n b l 0 po h sn xm ym] Cons.prems True by simp
    then obtain b1 prof where tr: "sample_transect h sn xm ym l 0 po (b, []) = Inr (b1, prof)"
      by auto
    have f1: "fits n b1"
      using sample_transect_Inr [OF Cons.prems(1) tr] by simp
    show ?thesis
    proof (cases "l < 8")
      case False
      then have "getitem point_names (int l) = Inl IndexError"
        by (simp add: getitem_nat length_point_names)
      then show ?thesis using tr by simp
    next
      case l8: True
      then have nm: "getitem point_names (int l) = Inr (point_names ! l)"
        by (simp add: getitem_nat length_point_names)
      have "\<not> list_all (\<lambda>po. length po \<le> capacity) rest
          \<or> (rest \<noteq> [] \<and> 8 < Suc l + length rest)"
        using Cons.prems(4) True l8 by (cases rest) auto
      then have "sample_all h sn xm ym (Suc l) rest (b1, profs') = Inl IndexError" for profs'
        using Cons.IH [OF f1, of "Suc l"] Cons.prems by simp
      then show ?thesis using tr nm by simp
    qed
  qed
qed

lemma stored_components:
  "stored b l k = (x, y, s, th, u, v, m) \<longleftrightarrow>
     xav b ! l ! k = x \<and> yav b ! l ! k = y \<and> sav b ! l ! k = s \<and> Hav b ! l ! k = th
     \<and> uav b ! l ! k = u \<and> vav b ! l ! k = v \<and> mav b ! l ! k = m"
  by (auto simp: stored_def)

lemma sample_values_Inr:
  "sample_values h sn xm ym p = Inr (x, y, th, u, v, m) \<longleftrightarrow>
     interpolate_along_transect h ym \<lfloor>snd p\<rfloor> \<lfloor>fst p\<rfloor>
        (fst p - of_int \<lfloor>fst p\<rfloor>) (snd p - of_int \<lfloor>snd p\<rfloor>) = Inr x
   \<and> interpolate_along_transect h xm \<lfloor>snd p\<rfloor> \<lfloor>fst p\<rfloor>
        (fst p - of_int \<lfloor>fst p\<rfloor>) (snd p - of_int \<lfloor>snd p\<rfloor>) = Inr y
   \<and> interpolate_along_transect h (exp1_thk sn) \<lfloor>snd p\<rfloor> \<lfloor>fst p\<rfloor>
        (fst p - of_int \<lfloor>fst p\<rfloor>) (snd p - of_int \<lfloor>snd p\<rfloor>) = Inr th
   \<and> interpolate_along_transect h (exp1_xvm sn) \<lfloor>snd p\<rfloor> \<lfloor>fst p\<rfloor>
        (fst p - of_int \<lfloor>fst p\<rfloor>) (snd p - of_int \<lfloor>snd p\<rfloor>) = Inr u
   \<and> interpolate_along_transect h (exp1_yvm sn) \<lfloor>snd p\<rfloor> \<lfloor>fst p\<rfloor>
        (fst p - of_int \<lfloor>fst p\<rfloor>) (snd p - of_int \<lfloor>snd p\<rfloor>) = Inr v
   \<and> nearest_along_transect h (exp1_mask sn) \<lfloor>snd p\<rfloor> \<lfloor>fst p\<rfloor>
        (fst p - of_int \<lfloor>fst p\<rfloor>) (snd p - of_int \<lfloor>snd p\<rfloor>) = Inr m"
  by (auto simp: sample_values_def Let_def and_then_eq_Inr)

lemma f_norm_finite: "f_sqrt (f_add (f_sq (Fin a)) (f_sq (Fin c))) = Fin (sqrt (a\<^sup>2 + c\<^sup>2))"
  by (simp add: f_sq_def power2_eq_square not_less)

lemma stored_allocate: "l < n \<Longrightarrow> k < capacity \<Longrightarrow> stored (allocate n) l k = zero_sample"
  by (simp add: stored_def allocate_def zeros_def zero_sample_def)

lemma fits_row:
  "fits n b \<Longrightarrow> l < n \<Longrightarrow>
     length (xav b ! l) = capacity \<and> length (yav b ! l) = capacity
     \<and> length (sav b ! l) = capacity \<and> length (Hav b ! l) = capacity
     \<and> length (uav b ! l) = capacity \<and> length (vav b ! l) = capacity
     \<and> length (mav b ! l) = capacity"
  by (simp add: fits_def rect_def list_all_length)

lemma fits_rows:
  "fits n b \<Longrightarrow>
     length (xav b) = n \<and> length (yav b) = n \<and> length (sav b) = n \<and> length (Hav b) = n
     \<and> length (uav b) = n \<and> length (vav b) = n \<and> length (mav b) = n"
  by (simp add: fits_def rect_def)

lemma sample_all_sizes:
  assumes "sample_all h sn xm ym 0 trns (allocate (length trns), Map.empty) = Inr (b, profs)"
  shows "fits (length trns) b" and "list_all (\<lambda>po. length po \<le> capacity) trns"
    and "length trns \<le> 8"
proof -
  note s = sample_all_Inr [OF fits_allocate assms]
  from s show "fits (length trns) b" by simp
  have "length (trns ! i) \<le> capacity" if "i < length trns" for i
    using s that by (cases "trns ! i = []") auto
  then show "list_all (\<lambda>po. length po \<le> capacity) trns"
    by (simp add: list_all_length)
  from s show "length trns \<le> 8" by (cases trns) auto
qed

lemma sample_all_cell:
  assumes "sample_all h sn xm ym 0 trns (allocate (length trns), Map.empty) = Inr (b, profs)"
    and "l < length trns" and "k < length (trns ! l)"
  shows "\<exists>vs. sample_values h sn xm ym (trns ! l ! k) = Inr vs \<and> stored b l k = record_of vs"
proof -
  have "\<exists>vs. sample_values h sn xm ym (trns ! l ! k) = Inr vs
              \<and> stored b (0 + l) k = record_of vs"
    using sample_all_Inr [OF fits_allocate assms(1)] assms(2,3) by blast
  then show ?thesis by simp
qed

lemma sample_all_rest:
  assumes "sample_all h sn xm ym 0 trns (allocate (length trns), Map.empty) = Inr (b, profs)"
    and "l < length trns" and "length (trns ! l) \<le> k" and "k < capacity"
  shows "stored b l k = zero_sample"
proof -
  have "stored b l k = stored (allocate (length trns)) l k"
    using sample_all_Inr [OF fits_allocate assms(1)] assms(3) by simp
  then show ?thesis using assms(2,4) by (simp add: stored_allocate)
qed

lemma floor_in_range:
  fixes x :: real
  assumes "0 \<le> x" and "x < real m"
  shows "0 \<le> \<lfloor>x\<rfloor> \<and> \<lfloor>x\<rfloor> < int m"
  using assms by (simp add: floor_less_iff)

lemma ex_lookup:
  assumes "length a = m" and "list_all (\<lambda>row. length row = n) a"
    and "0 \<le> i" and "i < int m" and "0 \<le> j" and "j < int n"
  shows "and_then (getitem a i) (\<lambda>row. getitem row j) = Inr (a ! nat i ! nat j)"
  using assms by (simp add: getitem_def list_all_length)

lemma ex_samplers_succeed:
  assumes "length xm = m" and "list_all (\<lambda>row. length row = n) xm"
    and "length ym = m" and "list_all (\<lambda>row. length row = n) ym"
    and "length (exp1_thk sn) = m" and "list_all (\<lambda>row. length row = n) (exp1_thk sn)"
    and "length (exp1_xvm sn) = m" and "list_all (\<lambda>row. length row = n) (exp1_xvm sn)"
    and "length (exp1_yvm sn) = m" and "list_all (\<lambda>row. length row = n) (exp1_yvm sn)"
    and "length (exp1_mask sn) = m" and "list_all (\<lambda>row. length row = n) (exp1_mask sn)"
    and "0 \<le> fst p" and "fst p < real n" and "0 \<le> snd p" and "snd p < real m"
  shows "samplers_succeed ex_helpers sn xm ym p"
proof -
  note i = floor_in_range [OF assms(15,16)]
  note j = floor_in_range [OF assms(13,14)]
  have look: "and_then (getitem a \<lfloor>snd p\<rfloor>) (\<lambda>row. getitem row \<lfloor>fst p\<rfloor>)
      = Inr (a ! nat \<lfloor>snd p\<rfloor> ! nat \<lfloor>fst p\<rfloor>)"
    if "length a = m" and "list_all (\<lambda>row. length row = n) a" for a :: grid
    using ex_lookup [OF that] i j by simp
  show ?thesis
    by (simp add: samplers_succeed_def sample_values_def ex_helpers_def Let_def
        look [OF assms(1,2)] look [OF assms(3,4)] look [OF assms(5,6)] look [OF assms(7,8)]
        look [OF assms(9,10)] look [OF assms(11,12)])
qed

lemma sqrt_25: "sqrt 25 = 5"
  by (rule real_sqrt_unique) simp_all

lemma sqrt_16: "sqrt 16 = 4"
  by (rule real_sqrt_unique) simp_all

lemma length_ex_trans: "length ex_trans = 8"
  by (simp add: ex_trans_def)

lemma ex_points_succeed:
  "list_all (list_all (samplers_succeed ex_helpers ex_snapshot [[Fin 3], [Fin 0]] [[Fin 4], [Fin 4]]))
     ex_trans"
proof -
  have "samplers_succeed ex_helpers ex_snapshot [[Fin 3], [Fin 0]] [[Fin 4], [Fin 4]] p"
    if "0 \<le> fst p" and "fst p < real 1" and "0 \<le> snd p" and "snd p < real 2" for p
    using that
    by (intro ex_samplers_succeed [where m = 2 and n = 1]) (simp_all add: ex_snapshot_def)
  then show ?thesis by (simp add: ex_trans_def)
qed

lemma ex_sampling_succeeds:
  "\<exists>b profs. sample_all ex_helpers ex_snapshot [[Fin 3], [Fin 0]] [[Fin 4], [Fin 4]] 0 ex_trans
      (allocate (length ex_trans), Map.empty) = Inr (b, profs)"
  using sample_all_succeeds [where n = "length ex_trans" and b = "allocate (length ex_trans)"
      and l = 0 and trns = ex_trans and h = ex_helpers and sn = ex_snapshot
      and xm = "[[Fin 3], [Fin 0]]" and ym = "[[Fin 4], [Fin 4]]" and profs = Map.empty]
    ex_points_succeed
  by (simp add: fits_allocate) (simp add: ex_trans_def capacity_def)

text \<open>
  Claim C3. After the sampling loop has run, the distance stored for point \<open>k\<close> of
  transect \<open>l\<close> is the square root of the sum of the squares of the two coordinates
  interpolated from the two meshes at that point, which are the values stored in
  \<^verbatim>\<open>xav\<close> and \<^verbatim>\<open>yav\<close> at the same index: the Euclidean distance of the point from the
  origin of the coordinates. No earlier point of the transect enters it, so it is not the
  length of the path walked along the transect.
\<close>

theorem distance_is_radial:
  assumes "sample_all h sn xm ym 0 trns (allocate (length trns), Map.empty) = Inr (b, profs)"
    and "l < length trns" and "k < length (trns ! l)"
  shows "\<exists>x y.
       interpolate_along_transect h ym \<lfloor>snd (trns ! l ! k)\<rfloor> \<lfloor>fst (trns ! l ! k)\<rfloor>
          (fst (trns ! l ! k) - of_int \<lfloor>fst (trns ! l ! k)\<rfloor>)
          (snd (trns ! l ! k) - of_int \<lfloor>snd (trns ! l ! k)\<rfloor>) = Inr x
     \<and> interpolate_along_transect h xm \<lfloor>snd (trns ! l ! k)\<rfloor> \<lfloor>fst (trns ! l ! k)\<rfloor>
          (fst (trns ! l ! k) - of_int \<lfloor>fst (trns ! l ! k)\<rfloor>)
          (snd (trns ! l ! k) - of_int \<lfloor>snd (trns ! l ! k)\<rfloor>) = Inr y
     \<and> xav b ! l ! k = x \<and> yav b ! l ! k = y
     \<and> sav b ! l ! k = f_sqrt (f_add (f_sq x) (f_sq y))
     \<and> (\<forall>a c. x = Fin a \<and> y = Fin c \<longrightarrow> sav b ! l ! k = Fin (sqrt (a\<^sup>2 + c\<^sup>2)))"
proof -
  have "\<exists>vs. sample_values h sn xm ym (trns ! l ! k) = Inr vs
              \<and> stored b (0 + l) k = record_of vs"
    using sample_all_Inr [OF fits_allocate assms(1)] assms(2,3) by blast
  then obtain vs where vs: "sample_values h sn xm ym (trns ! l ! k) = Inr vs"
    and st0: "stored b (0 + l) k = record_of vs"
    by blast
  from st0 have st: "stored b l k = record_of vs" by simp
  obtain x y th u v m where t: "vs = (x, y, th, u, v, m)"
    by (cases vs) auto
  from vs have calls:
    "interpolate_along_transect h ym \<lfloor>snd (trns ! l ! k)\<rfloor> \<lfloor>fst (trns ! l ! k)\<rfloor>
          (fst (trns ! l ! k) - of_int \<lfloor>fst (trns ! l ! k)\<rfloor>)
          (snd (trns ! l ! k) - of_int \<lfloor>snd (trns ! l ! k)\<rfloor>) = Inr x"
    "interpolate_along_transect h xm \<lfloor>snd (trns ! l ! k)\<rfloor> \<lfloor>fst (trns ! l ! k)\<rfloor>
          (fst (trns ! l ! k) - of_int \<lfloor>fst (trns ! l ! k)\<rfloor>)
          (snd (trns ! l ! k) - of_int \<lfloor>snd (trns ! l ! k)\<rfloor>) = Inr y"
    unfolding t sample_values_Inr by simp_all
  from st have cells: "xav b ! l ! k = x" "yav b ! l ! k = y"
    "sav b ! l ! k = f_sqrt (f_add (f_sq x) (f_sq y))"
    unfolding t record_of_def by (simp_all add: stored_components)
  have "sav b ! l ! k = Fin (sqrt (a\<^sup>2 + c\<^sup>2))" if "x = Fin a \<and> y = Fin c" for a c
    using cells(3) that by (simp add: f_norm_finite)
  with calls cells show ?thesis by blast
qed

text \<open>
  On the example, with coordinates \<open>x = (3, 0)\<close> and \<open>y = (4)\<close>, the first point of the
  first transect is stored at distance \<open>5\<close> (a path length would start at \<open>0\<close>) and the
  second at the smaller distance \<open>4\<close>.
\<close>

theorem distance_is_radial_witness:
  "(case sample_all ex_helpers ex_snapshot [[Fin 3], [Fin 0]] [[Fin 4], [Fin 4]] 0 ex_trans
      (allocate (length ex_trans), Map.empty) of
      Inl e \<Rightarrow> False
    | Inr (b, profs) \<Rightarrow> sav b ! 0 ! 0 = Fin 5 \<and> sav b ! 0 ! 1 = Fin 4)"
proof -
  from ex_sampling_succeeds obtain b profs where
    ok: "sample_all ex_helpers ex_snapshot [[Fin 3], [Fin 0]] [[Fin 4], [Fin 4]] 0 ex_trans
      (allocate (length ex_trans), Map.empty) = Inr (b, profs)"
    by blast
  have "sav b ! 0 ! 0 = Fin 5"
    using distance_is_radial [OF ok, of 0 0]
    by (auto simp: ex_trans_def ex_helpers_def getitem_def sqrt_25)
  moreover have "sav b ! 0 ! 1 = Fin 4"
    using distance_is_radial [OF ok, of 0 1]
    by (auto simp: ex_trans_def ex_helpers_def getitem_def sqrt_16)
  ultimately show ?thesis using ok by simp
qed

text \<open>
  Claim C10. Every sample buffer is allocated with one row of \<^verbatim>\<open>300\<close> cells per transect.
  When the sampling loop completes, every transect has at most \<^verbatim>\<open>300\<close> points, point
  \<open>k\<close> of transect \<open>l\<close> lies within the buffers at index \<open>(l, k)\<close> and holds the values
  sampled at that point, and the cells past a transect's last point still hold the initial
  zero. Conversely, when no sampler call raises and there are at most eight transects, the
  loop completes if every transect has at most \<^verbatim>\<open>300\<close> points and ends with an index
  error otherwise.
\<close>

theorem buffer_capacity:
  "fits n (allocate n) \<and> capacity = 300
   \<and> (sample_all h sn xm ym 0 trns (allocate (length trns), Map.empty) = Inr (b, profs) \<longrightarrow>
        list_all (\<lambda>po. length po \<le> 300) trns
      \<and> (\<forall>l<length trns. \<forall>k<length (trns ! l).
            l < length (xav b) \<and> k < length (xav b ! l)
          \<and> (\<exists>vs. sample_values h sn xm ym (trns ! l ! k) = Inr vs
                \<and> stored b l k = record_of vs))
      \<and> (\<forall>l<length trns. \<forall>k<300. length (trns ! l) \<le> k \<longrightarrow> stored b l k = zero_sample))
   \<and> (list_all (list_all (samplers_succeed h sn xm ym)) trns \<and> length trns \<le> 8 \<longrightarrow>
        (list_all (\<lambda>po. length po \<le> 300) trns \<longrightarrow>
           (\<exists>r. sample_all h sn xm ym 0 trns (allocate (length trns), Map.empty) = Inr r))
      \<and> (\<not> list_all (\<lambda>po. length po \<le> 300) trns \<longrightarrow>
           sample_all h sn xm ym 0 trns (allocate (length trns), Map.empty) = Inl IndexError))"
proof (intro conjI impI)
  show "fits n (allocate n)" by (rule fits_allocate)
  show "capacity = 300" by (simp add: capacity_def)
next
  assume ok: "sample_all h sn xm ym 0 trns (allocate (length trns), Map.empty) = Inr (b, profs)"
  show "list_all (\<lambda>po. length po \<le> 300) trns"
    using sample_all_sizes(2) [OF ok] by (simp add: capacity_def)
  show "\<forall>l<length trns. \<forall>k<length (trns ! l).
            l < length (xav b) \<and> k < length (xav b ! l)
          \<and> (\<exists>vs. sample_values h sn xm ym (trns ! l ! k) = Inr vs
                \<and> stored b l k = record_of vs)"
  proof (intro allI impI)
    fix l k assume l: "l < length trns" and k: "k < length (trns ! l)"
    have "length (trns ! l) \<le> capacity"
      using sample_all_sizes(2) [OF ok] l by (simp add: list_all_length)
    with k have "k < capacity" by simp
    then have "l < length (xav b) \<and> k < length (xav b ! l)"
      using fits_rows [OF sample_all_sizes(1) [OF ok]]
        fits_row [OF sample_all_sizes(1) [OF ok] l] l by simp
    with sample_all_cell [OF ok l k]
    show "l < length (xav b) \<and> k < length (xav b ! l)
          \<and> (\<exists>vs. sample_values h sn xm ym (trns ! l ! k) = Inr vs
                \<and> stored b l k = record_of vs)"
      by blast
  qed
  show "\<forall>l<length trns. \<forall>k<300. length (trns ! l) \<le> k \<longrightarrow> stored b l k = zero_sample"
    using sample_all_rest [OF ok] by (simp add: capacity_def)
next
  assume a: "list_all (list_all (samplers_succeed h sn xm ym)) trns \<and> length trns \<le> 8"
    and "list_all (\<lambda>po. length po \<le> 300) trns"
  then show "\<exists>r. sample_all h sn xm ym 0 trns (allocate (length trns), Map.empty) = Inr r"
    using sample_all_succeeds [where n = "length trns" and b = "allocate (length trns)"
        and l = 0 and trns = trns and h = h and sn = sn and xm = xm and ym = ym
        and profs = Map.empty]
    by (simp add: capacity_def fits_allocate)
next
  assume a: "list_all (list_all (samplers_succeed h sn xm ym)) trns \<and> length trns \<le> 8"
    and "\<not> list_all (\<lambda>po. length po \<le> 300) trns"
  then show "sample_all h sn xm ym 0 trns (allocate (length trns), Map.empty) = Inl IndexError"
    using sample_all_overflows [where n = "length trns" and b = "allocate (length trns)"
        and l = 0 and trns = trns and h = h and sn = sn and xm = xm and ym = ym
        and profs = Map.empty]
    by (simp add: capacity_def fits_allocate)
qed

text \<open>
  The example transects are sampled to the end; a single transect of \<open>301\<close> points ends
  the loop with an index error.
\<close>

theorem buffer_capacity_witness:
  "(\<exists>r. sample_all ex_helpers ex_snapshot [[Fin 3], [Fin 0]] [[Fin 4], [Fin 4]] 0 ex_trans
      (allocate (length ex_trans), Map.empty) = Inr r)
   \<and> sample_all ex_helpers ex_snapshot [[Fin 3], [Fin 0]] [[Fin 4], [Fin 4]] 0
        [replicate 301 (0, 0)] (allocate (length [replicate 301 (0 :: real, 0 :: real)]), Map.empty)
      = Inl IndexError"
proof -
  have one: "samplers_succeed ex_helpers ex_snapshot [[Fin 3], [Fin 0]] [[Fin 4], [Fin 4]] (0, 0)"
    using ex_points_succeed by (simp add: ex_trans_def)
  have "list_all (list_all (samplers_succeed ex_helpers ex_snapshot [[Fin 3], [Fin 0]]
      [[Fin 4], [Fin 4]])) [replicate 301 (0, 0)]"
    using one by (simp add: list_all_iff)
  then have "sample_all ex_helpers ex_snapshot [[Fin 3], [Fin 0]] [[Fin 4], [Fin 4]] 0
        [replicate 301 (0, 0)] (allocate (length [replicate 301 (0 :: real, 0 :: real)]), Map.empty)
      = Inl IndexError"
    using buffer_capacity [of _ ex_helpers ex_snapshot "[[Fin 3], [Fin 0]]" "[[Fin 4], [Fin 4]]"
        "[replicate 301 (0, 0)]"]
    by simp
  moreover have "\<exists>r. sample_all ex_helpers ex_snapshot [[Fin 3], [Fin 0]] [[Fin 4], [Fin 4]] 0
      ex_trans (allocate (length ex_trans), Map.empty) = Inr r"
    using buffer_capacity [of _ ex_helpers ex_snapshot "[[Fin 3], [Fin 0]]" "[[Fin 4], [Fin 4]]"
        ex_trans] ex_points_succeed
    by (simp add: ex_trans_def)
  ultimately show ?thesis by simp
qed

section \<open>The coordinate meshes\<close>

lemma fill_rows_Inr:
  assumes "\<forall>i\<in>set idx. i < length xs \<and> i < length a"
  shows "\<exists>a'. fill_rows xs idx a = Inr a' \<and> length a' = length a
     \<and> (\<forall>r<length a. a' ! r = (if r \<in> set idx then replicate (length (a ! r)) (xs ! r) else a ! r))"
  using assms
proof (induction idx arbitrary: a)
  case Nil
  then show ?case by simp
next
  case (Cons i rest)
  let ?a1 = "a[i := replicate (length (a ! i)) (xs ! i)]"
  from Cons.prems have i: "i < length xs" "i < length a" by simp_all
  have step: "fill_rows xs (i # rest) a = fill_rows xs rest ?a1"
    using i by (simp add: getitem_nat set_row_def)
  have "\<forall>i\<in>set rest. i < length xs \<and> i < length ?a1"
    using Cons.prems by simp
  from Cons.IH [OF this] obtain a' where
    a': "fill_rows xs rest ?a1 = Inr a'" "length a' = length a"
    and cells: "\<And>r. r < length a \<Longrightarrow>
        a' ! r = (if r \<in> set rest then replicate (length (?a1 ! r)) (xs ! r) else ?a1 ! r)"
    by auto
  have "a' ! r = (if r \<in> set (i # rest) then replicate (length (a ! r)) (xs ! r) else a ! r)"
    if "r < length a" for r
    using cells [OF that] that by (cases "r = i") (simp_all add: nth_list_update)
  with a' step show ?case by simp
qed

lemma fill_cols_Inr:
  assumes "\<forall>j\<in>set idx. j < length ys \<and> list_all (\<lambda>row. j < length row) a"
  shows "\<exists>a'. fill_cols ys idx a = Inr a' \<and> length a' = length a
     \<and> (\<forall>r<length a. length (a' ! r) = length (a ! r)
           \<and> (\<forall>c<length (a ! r). a' ! r ! c = (if c \<in> set idx then ys ! c else a ! r ! c)))"
  using assms
proof (induction idx arbitrary: a)
  case Nil
  then show ?case by simp
next
  case (Cons j rest)
  let ?a1 = "map (\<lambda>row. row[j := ys ! j]) a"
  from Cons.prems have j: "j < length ys" "list_all (\<lambda>row. j < length row) a" by simp_all
  have step: "fill_cols ys (j # rest) a = fill_cols ys rest ?a1"
    using j by (simp add: getitem_nat set_col_def)
  have "\<forall>j\<in>set rest. j < length ys \<and> list_all (\<lambda>row. j < length row) ?a1"
    using Cons.prems by (simp add: list_all_iff)
  from Cons.IH [OF this] obtain a' where
    a': "fill_cols ys rest ?a1 = Inr a'" "length a' = length a"
    and cells: "\<And>r. r < length a \<Longrightarrow> length (a' ! r) = length (?a1 ! r)
        \<and> (\<forall>c<length (?a1 ! r). a' ! r ! c = (if c \<in> set rest then ys ! c else ?a1 ! r ! c))"
    by auto
  have "length (a' ! r) = length (a ! r)
     \<and> (\<forall>c<length (a ! r). a' ! r ! c = (if c \<in> set (j # rest) then ys ! c else a ! r ! c))"
    if "r < length a" for r
    using cells [OF that] that by (auto simp: nth_list_update)
  with a' step show ?case by simp
qed

lemma build_mesh_Inr:
  assumes "m \<le> length xs" and "n \<le> length ys"
  shows "\<exists>xm ym. build_mesh xs ys m n = Inr (xm, ym)
     \<and> length xm = m \<and> length ym = m
     \<and> (\<forall>i<m. length (xm ! i) = n \<and> length (ym ! i) = n
           \<and> (\<forall>j<n. xm ! i ! j = xs ! i \<and> ym ! i ! j = ys ! j))"
proof -
  have "\<forall>i\<in>set [0..<m]. i < length xs \<and> i < length (zeros m n)"
    using assms(1) by (simp add: zeros_def)
  from fill_rows_Inr [OF this] obtain xm where
    xm: "fill_rows xs [0..<m] (zeros m n) = Inr xm" "length xm = m"
    and xc: "\<And>r. r < m \<Longrightarrow> xm ! r = replicate n (xs ! r)"
    by (auto simp: zeros_def)
  have "\<forall>j\<in>set [0..<n]. j < length ys \<and> list_all (\<lambda>row. j < length row) (zeros m n)"
    using assms(2) by (simp add: zeros_def list_all_iff)
  from fill_cols_Inr [OF this] obtain ym where
    ym: "fill_cols ys [0..<n] (zeros m n) = Inr ym" "length ym = m"
    and yc: "\<And>r. r < m \<Longrightarrow> length (ym ! r) = n \<and> (\<forall>c<n. ym ! r ! c = ys ! c)"
    by (auto simp: zeros_def)
  have "build_mesh xs ys m n = Inr (xm, ym)"
    using xm ym by (simp add: build_mesh_def)
  with xm ym xc yc show ?thesis by simp
qed

lemma define_profiles_Inr:
  "define_profiles ds tsd = Inr r \<longleftrightarrow>
     (\<exists>sn tv. read_snapshot ds = Inr sn \<and> read_timeseries tsd = Inr tv
        \<and> r = (sn, tv, fst (shape2 (exp1_mask sn)), snd (shape2 (exp1_mask sn)),
               transects (int (fst (shape2 (exp1_mask sn)))) (int (snd (shape2 (exp1_mask sn))))))"
  by (auto simp: define_profiles_def and_then_eq_Inr case_prod_beta)

lemma define_profiles_Inl:
  "define_profiles ds tsd = Inl e \<longleftrightarrow>
     read_snapshot ds = Inl e \<or> (\<exists>sn. read_snapshot ds = Inr sn \<and> read_timeseries tsd = Inl e)"
  by (auto simp: define_profiles_def and_then_eq_Inl case_prod_beta)

lemma prepare_Inr:
  assumes "prepare h ds tsd = Inr pr"
  shows "read_snapshot ds = Inr (snap pr)" and "read_timeseries tsd = Inr (tsv pr)"
    and "get_troughs h (transects (int (fst (shape2 (exp1_mask (snap pr)))))
           (int (snd (shape2 (exp1_mask (snap pr)))))) dp = Inr (trans' pr)"
    and "build_mesh (exp1_x (snap pr)) (exp1_y (snap pr)) (fst (shape2 (exp1_mask (snap pr))))
           (snd (shape2 (exp1_mask (snap pr)))) = Inr (exp1_xm pr, exp1_ym pr)"
    and "sample_all h (snap pr) (exp1_xm pr) (exp1_ym pr) 0 (trans' pr)
           (allocate (length (trans' pr)), Map.empty) = Inr (bufs pr, profiles' pr)"
proof -
  obtain sn tv m n trs trns xm ym b profs where
    d: "define_profiles ds tsd = Inr (sn, tv, m, n, trs)"
    and g: "get_troughs h trs dp = Inr trns"
    and bm: "build_mesh (exp1_x sn) (exp1_y sn) m n = Inr (xm, ym)"
    and sa: "sample_all h sn xm ym 0 trns (allocate (length trns), Map.empty) = Inr (b, profs)"
    and pr: "pr = \<lparr>snap = sn, tsv = tv, trans' = trns, bufs = b, exp1_xm = xm, exp1_ym = ym,
          profiles' = profs\<rparr>"
    using assms by (auto simp: prepare_def and_then_eq_Inr)
  from d have r: "read_snapshot ds = Inr sn" "read_timeseries tsd = Inr tv"
    "m = fst (shape2 (exp1_mask sn))" "n = snd (shape2 (exp1_mask sn))"
    "trs = transects (int m) (int n)"
    by (simp_all add: define_profiles_Inr)
  show "read_snapshot ds = Inr (snap pr)" using r pr by simp
  show "read_timeseries tsd = Inr (tsv pr)" using r pr by simp
  show "get_troughs h (transects (int (fst (shape2 (exp1_mask (snap pr)))))
           (int (snd (shape2 (exp1_mask (snap pr)))))) dp = Inr (trans' pr)"
    using r g pr by simp
  show "build_mesh (exp1_x (snap pr)) (exp1_y (snap pr)) (fst (shape2 (exp1_mask (snap pr))))
           (snd (shape2 (exp1_mask (snap pr)))) = Inr (exp1_xm pr, exp1_ym pr)"
    using r bm pr by simp
  show "sample_all h (snap pr) (exp1_xm pr) (exp1_ym pr) 0 (trans' pr)
           (allocate (length (trans' pr)), Map.empty) = Inr (bufs pr, profiles' pr)"
    using sa pr by simp
qed

text \<open>
  Claim C7. For axis arrays \<open>X\<close> of length \<open>Mx\<close> and \<open>Y\<close> of length \<open>My\<close> the two
  loops complete and produce meshes of shape \<open>(Mx, My)\<close> with \<open>Xmesh[i, j] = X[i]\<close> and
  \<open>Ymesh[i, j] = Y[j]\<close> at every index. Nothing else changes: at the end of the
  preparation the variables read from the two input files are as they were read, and the
  meshes are the ones built from the two axis arrays.
\<close>

theorem mesh_builder:
  assumes "length xs = m" and "length ys = n"
  shows "(\<exists>xm ym. build_mesh xs ys m n = Inr (xm, ym)
       \<and> length xm = m \<and> length ym = m
       \<and> (\<forall>i<m. length (xm ! i) = n \<and> length (ym ! i) = n
             \<and> (\<forall>j<n. xm ! i ! j = xs ! i \<and> ym ! i ! j = ys ! j)))
     \<and> (prepare h ds tsd = Inr pr \<longrightarrow>
          read_snapshot ds = Inr (snap pr) \<and> read_timeseries tsd = Inr (tsv pr)
        \<and> build_mesh (exp1_x (snap pr)) (exp1_y (snap pr)) (fst (shape2 (exp1_mask (snap pr))))
             (snd (shape2 (exp1_mask (snap pr)))) = Inr (exp1_xm pr, exp1_ym pr))"
  using build_mesh_Inr [of m xs n ys] assms prepare_Inr(1,2,4) [of h ds tsd pr]
  by simp

text \<open>
  The meshes of the example axes \<open>X = (3, 0)\<close> and \<open>Y = (4)\<close>.
\<close>

theorem mesh_builder_witness:
  "build_mesh [Fin 3, Fin 0] [Fin 4] 2 1 = Inr ([[Fin 3], [Fin 0]], [[Fin 4], [Fin 4]])"
  using mesh_builder [of "[Fin 3, Fin 0]" 2 "[Fin 4]" 1]
  by (simp add: build_mesh_def zeros_def getitem_def set_row_def set_col_def upt_rec
      numeral_eq_Suc)

section \<open>The output stage\<close>

lemma for_each_Inr:
  "for_each f ls = Inr rs \<longleftrightarrow>
     length rs = length ls \<and> (\<forall>i<length ls. f (ls ! i) = Inr (rs ! i))"
proof (induction ls arbitrary: rs)
  case Nil
  then show ?case by auto
next
  case (Cons a ls)
  show ?case
  proof (cases rs)
    case Nil
    then show ?thesis by (auto simp: and_then_eq_Inr)
  next
    case (Cons r rs')
    then show ?thesis
      by (auto simp: and_then_eq_Inr Cons.IH nth_Cons split: nat.splits)
  qed
qed

lemma profile_size_Inr:
  "profile_size trns l = Inr c \<longleftrightarrow> l < length trns \<and> c = length (trns ! l)"
  by (auto simp: profile_size_def getitem_nat and_then_eq_Inr)

lemma cut_row_Inr:
  "cut_row a l c = Inr xs \<longleftrightarrow> l < length a \<and> xs = take c (a ! l)"
  by (auto simp: cut_row_def getitem_nat and_then_eq_Inr)

lemma write_profile_Inr:
  "write_profile trns b sz l = Inr po \<longleftrightarrow>
     l < length trns \<and> l < length (sav b) \<and> l < length (Hav b) \<and> l < length (mav b)
     \<and> l < length (uav b) \<and> l < length (vav b)
     \<and> po = \<lparr>dim_size = sz,
             v_profile = take (length (trns ! l)) (sav b ! l),
             v_s = take (length (trns ! l)) (sav b ! l),
             v_lithk = take (length (trns ! l)) (Hav b ! l),
             v_mask = take (length (trns ! l)) (mav b ! l),
             v_xvelmean = take (length (trns ! l)) (uav b ! l),
             v_yvelmean = take (length (trns ! l)) (vav b ! l)\<rparr>"
  by (auto simp: write_profile_def and_then_eq_Inr profile_size_Inr cut_row_Inr)

lemma write_profiles_Inr:
  assumes "write_profiles trns b = Inr outs" and "l < 8"
  shows "length outs = 8 \<and> 8 \<le> length trns
     \<and> write_profile trns b (length (trns ! l)) l = Inr (outs ! l)"
proof -
  from assms(1) obtain sizes where
    sz: "for_each (profile_size trns) [0..<8] = Inr sizes"
    and wr: "for_each (\<lambda>l. write_profile trns b (sizes ! l) l) [0..<8] = Inr outs"
    by (auto simp: write_profiles_def and_then_eq_Inr)
  from sz have s: "profile_size trns i = Inr (sizes ! i)" if "i < 8" for i
    using that by (simp add: for_each_Inr)
  from wr have w: "length outs = 8"
    "write_profile trns b (sizes ! i) i = Inr (outs ! i)" if "i < 8" for i
    using that by (simp_all add: for_each_Inr)
  have "7 < length trns" using s [of 7] by (simp add: profile_size_Inr)
  moreover have "sizes ! l = length (trns ! l)"
    using s [OF assms(2)] by (simp add: profile_size_Inr)
  ultimately show ?thesis using w [OF assms(2)] by simp
qed

lemma write_profiles_succeeds:
  assumes "fits (length trns) b" and "8 \<le> length trns"
  shows "\<exists>outs. write_profiles trns b = Inr outs"
proof -
  have sz: "for_each (profile_size trns) [0..<8] = Inr (map (\<lambda>l. length (trns ! l)) [0..<8])"
    using assms(2) by (simp add: for_each_Inr profile_size_Inr del: upt_Suc)
  have len: "l < length (sav b) \<and> l < length (Hav b) \<and> l < length (mav b)
     \<and> l < length (uav b) \<and> l < length (vav b)" if "l < 8" for l
    using assms that by (simp add: fits_def rect_def)
  have "\<exists>po. write_profile trns b sz l = Inr po" if "l < 8" for l sz
    using len [OF that] assms(2) that by (simp add: write_profile_Inr)
  then have "\<forall>l<8. \<exists>po. write_profile trns b (map (\<lambda>l. length (trns ! l)) [0..<8] ! l) l = Inr po"
    by blast
  then obtain g where
    g: "\<forall>l<8. write_profile trns b (map (\<lambda>l. length (trns ! l)) [0..<8] ! l) l = Inr (g l)"
    by metis
  then have "for_each (\<lambda>l. write_profile trns b (map (\<lambda>l. length (trns ! l)) [0..<8] ! l) l) [0..<8]
      = Inr (map g [0..<8])"
    by (simp add: for_each_Inr del: upt_Suc)
  with sz show ?thesis by (simp add: write_profiles_def)
qed

lemma nan_where_zero_cells:
  "length (nan_where_zero a) = length a
   \<and> (\<forall>i<length a. length (nan_where_zero a ! i) = length (a ! i)
        \<and> (\<forall>j<length (a ! i).
              (a ! i ! j = Fin 0 \<longrightarrow> nan_where_zero a ! i ! j = NaN)
            \<and> (a ! i ! j \<noteq> Fin 0 \<longrightarrow> nan_where_zero a ! i ! j = a ! i ! j)))"
proof -
  have z: "f_is_zero v \<longleftrightarrow> v = Fin 0" for v
    by (cases v) simp_all
  show ?thesis by (simp add: nan_where_zero_def z)
qed

lemma write_file_Inr:
  "write_file pr = Inr f \<longleftrightarrow>
     (\<exists>outs. write_profiles (trans' pr) (bufs pr) = Inr outs \<and>
       f = \<lparr>nc_Time = exp1_t (snap pr), nc_X = exp1_x (snap pr), nc_Y = exp1_y (snap pr),
          nc_xvelmean = nan_where_zero (exp1_xvm (snap pr)),
          nc_yvelmean = nan_where_zero (exp1_yvm (snap pr)),
          nc_lithk = nan_where_zero (exp1_thk (snap pr)),
          nc_mask = exp1_mask (snap pr),
          nc_calverate = exp1_crate (snap pr),
          nc_topg = exp1_topg (snap pr),
          nc_iareafl = exp1_ts_afl (tsv pr), nc_iareagr = exp1_ts_agr (tsv pr),
          nc_lim = exp1_ts_lim (tsv pr), nc_limnsw = exp1_ts_limnsw (tsv pr),
          nc_tendlicalvf = exp1_ts_tendcf (tsv pr),
          nc_tendligroundf = exp1_ts_tendgf (tsv pr),
          nc_profiles = outs,
          mask_flag_values = ''1, 2, 3'',
          mask_flag_meanings = ''1=grounded ice, 2=floating ice, 3=open ocean''\<rparr>)"
  by (auto simp: write_file_def and_then_eq_Inr)

lemma ex_write_succeeds: "\<exists>f. write_file ex_prepared = Inr f"
proof -
  have "fits (length ex_trans) (allocate 8)"
    using fits_allocate [of 8] by (simp add: length_ex_trans)
  then have "\<exists>outs. write_profiles ex_trans (allocate 8) = Inr outs"
    by (rule write_profiles_succeeds) (simp add: length_ex_trans)
  then show ?thesis
    by (auto simp: write_file_Inr ex_prepared_def)
qed

text \<open>
  Claim C9. When the sampling loop has completed and the profiles are written, each of the
  eight transects gets a dimension and six arrays (the two distance arrays, thickness,
  mask, and the two velocities) of exactly its own number of points, and entry \<open>k\<close> of
  each array is the value sampled at point \<open>k\<close> of that transect. No cell of the buffers
  past a transect's last point, and no cell of another transect, is written.
\<close>

theorem profiles_truncated:
  assumes "sample_all h sn xm ym 0 trns (allocate (length trns), Map.empty) = Inr (b, profs)"
    and "write_profiles trns b = Inr outs" and "l < 8"
  shows "length outs = 8 \<and> l < length trns
     \<and> dim_size (outs ! l) = length (trns ! l)
     \<and> length (v_profile (outs ! l)) = length (trns ! l)
     \<and> length (v_s (outs ! l)) = length (trns ! l)
     \<and> length (v_lithk (outs ! l)) = length (trns ! l)
     \<and> length (v_mask (outs ! l)) = length (trns ! l)
     \<and> length (v_xvelmean (outs ! l)) = length (trns ! l)
     \<and> length (v_yvelmean (outs ! l)) = length (trns ! l)
     \<and> (\<forall>k<length (trns ! l).
          v_profile (outs ! l) ! k = sav b ! l ! k
        \<and> (\<exists>vs. sample_values h sn xm ym (trns ! l ! k) = Inr vs
              \<and> record_of vs =
                  (xav b ! l ! k, yav b ! l ! k, v_s (outs ! l) ! k, v_lithk (outs ! l) ! k,
                   v_xvelmean (outs ! l) ! k, v_yvelmean (outs ! l) ! k,
                   v_mask (outs ! l) ! k)))"
proof -
  note w = write_profiles_Inr [OF assms(2,3)]
  from w have l: "l < length trns" using assms(3) by simp
  from w have out: "outs ! l =
      \<lparr>dim_size = length (trns ! l),
       v_profile = take (length (trns ! l)) (sav b ! l),
       v_s = take (length (trns ! l)) (sav b ! l),
       v_lithk = take (length (trns ! l)) (Hav b ! l),
       v_mask = take (length (trns ! l)) (mav b ! l),
       v_xvelmean = take (length (trns ! l)) (uav b ! l),
       v_yvelmean = take (length (trns ! l)) (vav b ! l)\<rparr>"
    by (simp add: write_profile_Inr)
  have c: "length (trns ! l) \<le> capacity"
    using sample_all_sizes(2) [OF assms(1)] l by (simp add: list_all_length)
  note r = fits_row [OF sample_all_sizes(1) [OF assms(1)] l]
  have cells: "v_profile (outs ! l) ! k = sav b ! l ! k
        \<and> (\<exists>vs. sample_values h sn xm ym (trns ! l ! k) = Inr vs
              \<and> record_of vs =
                  (xav b ! l ! k, yav b ! l ! k, v_s (outs ! l) ! k, v_lithk (outs ! l) ! k,
                   v_xvelmean (outs ! l) ! k, v_yvelmean (outs ! l) ! k,
                   v_mask (outs ! l) ! k))" if k: "k < length (trns ! l)" for k
  proof -
    from sample_all_cell [OF assms(1) l k] obtain vs where
      vs: "sample_values h sn xm ym (trns ! l ! k) = Inr vs"
      and st: "stored b l k = record_of vs"
      by blast
    from st have "record_of vs =
        (xav b ! l ! k, yav b ! l ! k, v_s (outs ! l) ! k, v_lithk (outs ! l) ! k,
         v_xvelmean (outs ! l) ! k, v_yvelmean (outs ! l) ! k, v_mask (outs ! l) ! k)"
      using k by (simp add: out stored_def)
    with vs show ?thesis using k by (auto simp: out)
  qed
  from w l c r cells show ?thesis
    by (simp add: out)
qed

text \<open>
  The example transects have 2, 1, 0, 1, 1, 1, 1 and 3 points, and so have their arrays.
\<close>

theorem profiles_truncated_witness:
  "(case sample_all ex_helpers ex_snapshot [[Fin 3], [Fin 0]] [[Fin 4], [Fin 4]] 0 ex_trans
      (allocate (length ex_trans), Map.empty) of
      Inl e \<Rightarrow> False
    | Inr (b, profs) \<Rightarrow>
        (case write_profiles ex_trans b of
           Inl e \<Rightarrow> False
         | Inr outs \<Rightarrow>
             length (v_s (outs ! 0)) = 2 \<and> length (v_s (outs ! 1)) = 1
           \<and> length (v_s (outs ! 2)) = 0 \<and> length (v_s (outs ! 7)) = 3
           \<and> dim_size (outs ! 7) = 3 \<and> length (v_lithk (outs ! 7)) = 3))"
proof -
  from ex_sampling_succeeds obtain b profs where
    ok: "sample_all ex_helpers ex_snapshot [[Fin 3], [Fin 0]] [[Fin 4], [Fin 4]] 0 ex_trans
      (allocate (length ex_trans), Map.empty) = Inr (b, profs)"
    by blast
  have "\<exists>outs. write_profiles ex_trans b = Inr outs"
    using write_profiles_succeeds [OF sample_all_sizes(1) [OF ok]] by (simp add: length_ex_trans)
  then obtain outs where w: "write_profiles ex_trans b = Inr outs"
    by blast
  have "length (v_s (outs ! 0)) = 2 \<and> length (v_s (outs ! 1)) = 1
           \<and> length (v_s (outs ! 2)) = 0 \<and> length (v_s (outs ! 7)) = 3
           \<and> dim_size (outs ! 7) = 3 \<and> length (v_lithk (outs ! 7)) = 3"
    using profiles_truncated [OF ok w, of 0] profiles_truncated [OF ok w, of 1]
      profiles_truncated [OF ok w, of 2] profiles_truncated [OF ok w, of 7]
    by (simp add: ex_trans_def)
  with ok w show ?thesis by simp
qed

text \<open>
  Claim C2. In the written file the full thickness field and the two full velocity fields
  have the shape of the fields read, with not-a-number in every cell that was exactly
  zero and the value read in every other cell. The mask and the bedrock elevation are
  written as they are, and the profile arrays are the cut buffers, in which a zero stays
  a zero.
\<close>

theorem zero_cells_become_missing:
  assumes "write_file pr = Inr f"
  shows "(\<forall>(a, a') \<in> {(exp1_thk (snap pr), nc_lithk f), (exp1_xvm (snap pr), nc_xvelmean f),
                      (exp1_yvm (snap pr), nc_yvelmean f)}.
          length a' = length a
        \<and> (\<forall>i<length a. length (a' ! i) = length (a ! i)
             \<and> (\<forall>j<length (a ! i).
                   (a ! i ! j = Fin 0 \<longrightarrow> a' ! i ! j = NaN)
                 \<and> (a ! i ! j \<noteq> Fin 0 \<longrightarrow> a' ! i ! j = a ! i ! j))))
     \<and> nc_mask f = exp1_mask (snap pr) \<and> nc_topg f = exp1_topg (snap pr)
     \<and> (\<forall>l<8. v_lithk (nc_profiles f ! l) = take (length (trans' pr ! l)) (Hav (bufs pr) ! l)
          \<and> v_xvelmean (nc_profiles f ! l) = take (length (trans' pr ! l)) (uav (bufs pr) ! l)
          \<and> v_yvelmean (nc_profiles f ! l) = take (length (trans' pr ! l)) (vav (bufs pr) ! l))"
proof -
  from assms obtain outs where
    outs: "write_profiles (trans' pr) (bufs pr) = Inr outs"
    and f: "nc_lithk f = nan_where_zero (exp1_thk (snap pr))"
      "nc_xvelmean f = nan_where_zero (exp1_xvm (snap pr))"
      "nc_yvelmean f = nan_where_zero (exp1_yvm (snap pr))"
      "nc_mask f = exp1_mask (snap pr)" "nc_topg f = exp1_topg (snap pr)"
      "nc_profiles f = outs"
    by (auto simp: write_file_Inr)
  have p: "v_lithk (outs ! l) = take (length (trans' pr ! l)) (Hav (bufs pr) ! l)
          \<and> v_xvelmean (outs ! l) = take (length (trans' pr ! l)) (uav (bufs pr) ! l)
          \<and> v_yvelmean (outs ! l) = take (length (trans' pr ! l)) (vav (bufs pr) ! l)"
    if "l < 8" for l
    using write_profiles_Inr [OF outs that] by (simp add: write_profile_Inr)
  show ?thesis
    using nan_where_zero_cells [of "exp1_thk (snap pr)"]
      nan_where_zero_cells [of "exp1_xvm (snap pr)"]
      nan_where_zero_cells [of "exp1_yvm (snap pr)"] p
    by (simp add: f)
qed

text \<open>
  On the example the zero cells of thickness and velocity are written as not-a-number, the
  cell \<open>7\<close> as \<open>7\<close>, the zero of the bedrock elevation stays, and the thickness profile of
  the first transect keeps its zeros.
\<close>

theorem zero_cells_become_missing_witness:
  "(case write_file ex_prepared of
      Inl e \<Rightarrow> False
    | Inr f \<Rightarrow>
        nc_lithk f ! 0 ! 0 = NaN \<and> nc_lithk f ! 1 ! 0 = Fin 7
      \<and> nc_xvelmean f ! 0 ! 0 = NaN \<and> nc_xvelmean f ! 1 ! 0 = Fin 5
      \<and> nc_yvelmean f ! 0 ! 0 = NaN \<and> nc_yvelmean f ! 1 ! 0 = NaN
      \<and> nc_mask f = [[Fin 1], [Fin 2]] \<and> nc_topg f = [[Fin 0], [Fin (- 2)]]
      \<and> v_lithk (nc_profiles f ! 0) = [Fin 0, Fin 0])"
proof -
  from ex_write_succeeds obtain f where f: "write_file ex_prepared = Inr f"
    by blast
  have "nc_lithk f ! 0 ! 0 = NaN \<and> nc_lithk f ! 1 ! 0 = Fin 7
      \<and> nc_xvelmean f ! 0 ! 0 = NaN \<and> nc_xvelmean f ! 1 ! 0 = Fin 5
      \<and> nc_yvelmean f ! 0 ! 0 = NaN \<and> nc_yvelmean f ! 1 ! 0 = NaN
      \<and> nc_mask f = [[Fin 1], [Fin 2]] \<and> nc_topg f = [[Fin 0], [Fin (- 2)]]
      \<and> v_lithk (nc_profiles f ! 0) = [Fin 0, Fin 0]"
    using zero_cells_become_missing [OF f]
    by (simp add: ex_prepared_def ex_snapshot_def ex_trans_def allocate_def zeros_def
        capacity_def numeral_eq_Suc)
  with f show ?thesis by simp
qed

section \<open>Grids without a centre cell\<close>

lemma run_completes:
  assumes rs: "read_snapshot ds = Inr sn" and rt: "read_timeseries tsd = Inr tv"
    and sh: "shape2 (exp1_mask sn) = (m, n)"
    and gt: "get_troughs h (transects (int m) (int n)) dp = Inr trns"
    and len: "length trns = 8" and cap: "list_all (\<lambda>po. length po \<le> capacity) trns"
    and ax: "m \<le> length (exp1_x sn)" "n \<le> length (exp1_y sn)"
    and smp: "\<And>xm ym. build_mesh (exp1_x sn) (exp1_y sn) m n = Inr (xm, ym) \<Longrightarrow>
        list_all (list_all (samplers_succeed h sn xm ym)) trns"
  shows "\<exists>f. run h ds tsd files = (None, files(exp_outfile \<mapsto> Complete f))"
proof -
  have d: "define_profiles ds tsd = Inr (sn, tv, m, n, transects (int m) (int n))"
    using rs rt sh by (simp add: define_profiles_Inr)
  from build_mesh_Inr [OF ax] obtain xm ym where
    bm: "build_mesh (exp1_x sn) (exp1_y sn) m n = Inr (xm, ym)"
    by blast
  have "\<exists>r. sample_all h sn xm ym 0 trns (allocate (length trns), Map.empty) = Inr r"
    using sample_all_succeeds [where n = "length trns" and b = "allocate (length trns)"
        and l = 0 and trns = trns and h = h and sn = sn and xm = xm and ym = ym
        and profs = Map.empty] smp [OF bm] cap len
    by (simp add: fits_allocate)
  then obtain b profs where
    sa: "sample_all h sn xm ym 0 trns (allocate (length trns), Map.empty) = Inr (b, profs)"
    by auto
  let ?pr = "\<lparr>snap = sn, tsv = tv, trans' = trns, bufs = b, exp1_xm = xm, exp1_ym = ym,
          profiles' = profs\<rparr>"
  have p: "prepare h ds tsd = Inr ?pr"
    using d gt bm sa by (simp add: prepare_def)
  have "\<exists>outs. write_profiles trns b = Inr outs"
    using write_profiles_succeeds [OF sample_all_sizes(1) [OF sa]] len by simp
  then obtain f where "write_file ?pr = Inr f"
    by (auto simp: write_file_Inr)
  with p have "run h ds tsd files = (None, files(exp_outfile \<mapsto> Complete f))"
    by (simp add: run_def)
  then show ?thesis by blast
qed

lemma read_snapshot_ex:
  "read_snapshot (ex_dataset ''xvelmean'' ''yvelmean'' ''lithk'' m) =
     Inr \<lparr>exp1_x = map (\<lambda>i. Fin (real i)) [0..<m], exp1_y = map (\<lambda>i. Fin (real i)) [0..<m],
          exp1_t = [Fin (- 110000)],
          exp1_xvm = per_year (ex_grid m 1), exp1_yvm = per_year (ex_grid m 2),
          exp1_thk = ex_grid m 100,
          exp1_mask = remap_mask (Signed 8) (ex_grid m 2), exp1_crate = [per_year (ex_grid m 0)],
          exp1_topg = ex_grid m (- 1)\<rparr>"
  by (simp add: read_snapshot_def ex_dataset_def read1_def read3_def read_tail_def
      read_velocity_thickness_def read_primary_def getitem_def tex_def model_year_def)

lemma read_timeseries_ex: "\<exists>tv. read_timeseries ex_series = Inr tv"
  by (simp add: read_timeseries_def ex_series_def read_at_def getitem_def ti_def)

lemma shape2_nonempty: "a \<noteq> [] \<Longrightarrow> shape2 a = (length a, length (hd a))"
  by (cases a) (simp_all add: shape2_def)

lemma shape2_ex_mask: "0 < m \<Longrightarrow> shape2 (remap_mask dt (ex_grid m v)) = (m, m)"
  by (simp add: shape2_nonempty remap_mask_def ex_grid_def hd_map)

lemma ex_troughs:
  "get_troughs ex_helpers (transects 4 4) dp =
     Inr [[(1, 1), (1, 2)], [(1, 1), (2, 2)], [(1, 1), (2, 1)], [(1, 1), (2, 2)],
          [(1, 1), (1, 2)], [(1, 1), (2, 2)], [(1, 1), (2, 1)], [(1, 1), (2, 2)]]"
  by (simp add: ex_helpers_def transects_def points_defs Mp_def)

lemma ex_run_completes:
  "\<exists>f. run ex_helpers (ex_dataset ''xvelmean'' ''yvelmean'' ''lithk'' 4) ex_series files
     = (None, files(exp_outfile \<mapsto> Complete f))"
proof -
  let ?sn = "\<lparr>exp1_x = map (\<lambda>i. Fin (real i)) [0..<4], exp1_y = map (\<lambda>i. Fin (real i)) [0..<4],
          exp1_t = [Fin (- 110000)],
          exp1_xvm = per_year (ex_grid 4 1), exp1_yvm = per_year (ex_grid 4 2),
          exp1_thk = ex_grid 4 100,
          exp1_mask = remap_mask (Signed 8) (ex_grid 4 2), exp1_crate = [per_year (ex_grid 4 0)],
          exp1_topg = ex_grid 4 (- 1)\<rparr>"
  let ?trns = "[[(1, 1), (1, 2)], [(1, 1), (2, 2)], [(1, 1), (2, 1)], [(1, 1), (2, 2)],
          [(1, 1), (1, 2)], [(1, 1), (2, 2)], [(1, 1), (2, 1)], [(1, 1), (2, 2)]] :: point list list"
  obtain tv where tv: "read_timeseries ex_series = Inr tv"
    using read_timeseries_ex by blast
  have sh: "shape2 (exp1_mask ?sn) = (4, 4)"
    by (simp add: shape2_ex_mask)
  have gt: "get_troughs ex_helpers (transects (int 4) (int 4)) dp = Inr ?trns"
    using ex_troughs by simp
  have smp: "list_all (list_all (samplers_succeed ex_helpers ?sn xm ym)) ?trns"
    if bm: "build_mesh (exp1_x ?sn) (exp1_y ?sn) 4 4 = Inr (xm, ym)" for xm ym
  proof -
    from build_mesh_Inr [of 4 "exp1_x ?sn" 4 "exp1_y ?sn"] bm
    have m: "length xm = 4" "list_all (\<lambda>row. length row = 4) xm"
      "length ym = 4" "list_all (\<lambda>row. length row = 4) ym"
      by (auto simp: list_all_length)
    have "samplers_succeed ex_helpers ?sn xm ym p"
      if "0 \<le> fst p" and "fst p < real 4" and "0 \<le> snd p" and "snd p < real 4" for p
      using that m
      by (intro ex_samplers_succeed [where m = 4 and n = 4])
        (simp_all add: ex_grid_def per_year_def remap_mask_def list_all_iff)
    then show ?thesis by simp
  qed
  show ?thesis
    using run_completes [OF read_snapshot_ex tv sh gt _ _ _ _ smp]
    by (simp add: capacity_def)
qed

lemma fill_rows_error: "fill_rows xs idx a = Inl e \<Longrightarrow> e = IndexError"
proof (induction idx arbitrary: a)
  case Nil
  then show ?case by simp
next
  case (Cons i rest)
  then show ?case
    by (auto simp: and_then_eq_Inl getitem_nat set_row_def split: if_splits)
qed

lemma fill_cols_error: "fill_cols ys idx a = Inl e \<Longrightarrow> e = IndexError"
proof (induction idx arbitrary: a)
  case Nil
  then show ?case by simp
next
  case (Cons j rest)
  then show ?case
    by (auto simp: and_then_eq_Inl getitem_nat set_col_def split: if_splits)
qed

lemma fill_rows_short:
  assumes "\<exists>i\<in>set idx. length xs \<le> i"
  shows "\<exists>e. fill_rows xs idx a = Inl e"
  using assms
proof (induction idx arbitrary: a)
  case Nil
  then show ?case by simp
next
  case (Cons i rest)
  show ?case
  proof (cases "fill_rows xs (i # rest) a")
    case (Inl e)
    then show ?thesis by blast
  next
    case (Inr a')
    then obtain a1 where "i < length xs" and "fill_rows xs rest a1 = Inr a'"
      by (auto simp: and_then_eq_Inr getitem_nat split: if_splits)
    with Cons.IH [of a1] Cons.prems show ?thesis by auto
  qed
qed

lemma fill_cols_short:
  assumes "\<exists>j\<in>set idx. length ys \<le> j"
  shows "\<exists>e. fill_cols ys idx a = Inl e"
  using assms
proof (induction idx arbitrary: a)
  case Nil
  then show ?case by simp
next
  case (Cons j rest)
  show ?case
  proof (cases "fill_cols ys (j # rest) a")
    case (Inl e)
    then show ?thesis by blast
  next
    case (Inr a')
    then obtain a1 where "j < length ys" and "fill_cols ys rest a1 = Inr a'"
      by (auto simp: and_then_eq_Inr getitem_nat split: if_splits)
    with Cons.IH [of a1] Cons.prems show ?thesis by auto
  qed
qed

lemma build_mesh_Inl:
  "build_mesh xs ys m n = Inl e \<longleftrightarrow> e = IndexError \<and> (length xs < m \<or> length ys < n)"
proof
  assume f: "build_mesh xs ys m n = Inl e"
  then have "e = IndexError"
    by (auto simp: build_mesh_def and_then_eq_Inl dest: fill_rows_error fill_cols_error)
  moreover have "length xs < m \<or> length ys < n"
  proof (rule ccontr)
    assume "\<not> (length xs < m \<or> length ys < n)"
    then have "m \<le> length xs" and "n \<le> length ys" by simp_all
    from build_mesh_Inr [OF this] f show False by auto
  qed
  ultimately show "e = IndexError \<and> (length xs < m \<or> length ys < n)" by simp
next
  assume a: "e = IndexError \<and> (length xs < m \<or> length ys < n)"
  have "\<exists>e'. build_mesh xs ys m n = Inl e'"
  proof (cases "length xs < m")
    case True
    then have "\<exists>i\<in>set [0..<m]. length xs \<le> i" by auto
    from fill_rows_short [OF this, of "zeros m n"] show ?thesis
      by (auto simp: build_mesh_def)
  next
    case False
    with a have "\<exists>j\<in>set [0..<n]. length ys \<le> j" by auto
    from fill_cols_short [OF this, of "zeros m n"] show ?thesis
      by (cases "fill_rows xs [0..<m] (zeros m n)") (auto simp: build_mesh_def)
  qed
  then obtain e' where e': "build_mesh xs ys m n = Inl e'" by blast
  then have "e' = IndexError"
    by (auto simp: build_mesh_def and_then_eq_Inl dest: fill_rows_error fill_cols_error)
  with e' a show "build_mesh xs ys m n = Inl e" by simp
qed

lemma prepare_after_before_sampling:
  "prepare h ds tsd =
     and_then (before_sampling h ds tsd) (\<lambda>(sn, tv, trns, xm, ym).
     and_then (sample_all h sn xm ym 0 trns (allocate (length trns), Map.empty)) (\<lambda>(b, profs).
     Inr \<lparr>snap = sn, tsv = tv, trans' = trns, bufs = b, exp1_xm = xm, exp1_ym = ym,
          profiles' = profs\<rparr>))"
  by (auto simp: prepare_def before_sampling_def and_then_def split: sum.splits)

lemma before_sampling_read:
  assumes "read_snapshot ds = Inr sn" and "read_timeseries tsd = Inr tv"
    and "shape2 (exp1_mask sn) = (m, n)"
  shows "before_sampling h ds tsd =
     and_then (get_troughs h (transects (int m) (int n)) dp) (\<lambda>trns.
     and_then (build_mesh (exp1_x sn) (exp1_y sn) m n) (\<lambda>(xm, ym).
     Inr (sn, tv, trns, xm, ym)))"
proof -
  have "define_profiles ds tsd = Inr (sn, tv, m, n, transects (int m) (int n))"
    using assms by (simp add: define_profiles_Inr)
  then show ?thesis by (simp add: before_sampling_def)
qed

lemma before_sampling_Inl:
  "before_sampling h ds tsd = Inl e \<longleftrightarrow>
     read_snapshot ds = Inl e
   \<or> (\<exists>sn. read_snapshot ds = Inr sn \<and>
        (read_timeseries tsd = Inl e
       \<or> (\<exists>tv. read_timeseries tsd = Inr tv \<and>
            (get_troughs h (transects (int (fst (shape2 (exp1_mask sn))))
                (int (snd (shape2 (exp1_mask sn))))) dp = Inl e
           \<or> (\<exists>trns. get_troughs h (transects (int (fst (shape2 (exp1_mask sn))))
                  (int (snd (shape2 (exp1_mask sn))))) dp = Inr trns
                \<and> e = IndexError
                \<and> (length (exp1_x sn) < fst (shape2 (exp1_mask sn))
                   \<or> length (exp1_y sn) < snd (shape2 (exp1_mask sn))))))))"
proof (cases "read_snapshot ds")
  case (Inl e1)
  then show ?thesis
    by (simp add: before_sampling_def define_profiles_needs_snapshot)
next
  case (Inr sn)
  show ?thesis
  proof (cases "read_timeseries tsd")
    case (Inl e2)
    then have "define_profiles ds tsd = Inl e2"
      using Inr by (simp add: define_profiles_Inl)
    then show ?thesis using Inr Inl by (simp add: before_sampling_def)
  next
    case tv: (Inr tv)
    have sh: "shape2 (exp1_mask sn) = (fst (shape2 (exp1_mask sn)), snd (shape2 (exp1_mask sn)))"
      by simp
    show ?thesis
      unfolding before_sampling_read [OF Inr tv sh]
      using Inr tv
      by (cases "get_troughs h (transects (int (fst (shape2 (exp1_mask sn))))
                (int (snd (shape2 (exp1_mask sn))))) dp")
        (auto simp: and_then_eq_Inl build_mesh_Inl)
  qed
qed

text \<open>
  Claim C5, as amended. The script does not examine the parity of \<open>Mx\<close> or \<open>My\<close> and
  raises no precondition violation. When the two input files can be read and a dimension
  is even, the transects are defined all the same: the eight of them start at
  \<open>(Mp, Mp)\<close> with \<open>Mp\<close> the quotient \<open>(Mx - 1) / 2\<close> truncated, which is \<open>Mx / 2 - 1\<close>
  for even \<open>Mx\<close>, and \<open>My\<close> has no part in it. The statements before the sampling loop
  then go on to the point generator and the two mesh loops, and they complete whenever
  the point generator returns and the two axis arrays are at least as long as the
  dimensions of the mask. They end with an error only when the point generator raises or,
  with an index error, when an axis array is shorter than the dimension of the mask it is
  indexed by. On any input, the errors before the sampling loop are those of reading the
  two input files, those of the point generator and that index error; none of them depends
  on the parity of a dimension.
\<close>

theorem even_grid_is_not_rejected:
  assumes "read_snapshot ds = Inr sn" and "read_timeseries tsd = Inr tv"
    and "shape2 (exp1_mask sn) = (m, n)" and "even m \<or> even n"
  shows "define_profiles ds tsd = Inr (sn, tv, m, n, transects (int m) (int n))
     \<and> (\<forall>t \<in> set (transects (int m) (int n)). fst t = (Mp (int m), Mp (int m)))
     \<and> (even m \<and> 0 < m \<longrightarrow> Mp (int m) = int m div 2 - 1)
     \<and> (odd m \<longrightarrow> Mp (int m) = (int m - 1) div 2)
     \<and> (\<forall>ds' tsd' e. define_profiles ds' tsd' = Inl e \<longrightarrow>
           read_snapshot ds' = Inl e \<or> read_timeseries tsd' = Inl e)
     \<and> before_sampling h ds tsd =
         and_then (get_troughs h (transects (int m) (int n)) dp) (\<lambda>trns.
         and_then (build_mesh (exp1_x sn) (exp1_y sn) m n) (\<lambda>(xm, ym).
         Inr (sn, tv, trns, xm, ym)))
     \<and> (\<forall>trns. get_troughs h (transects (int m) (int n)) dp = Inr trns
           \<and> m \<le> length (exp1_x sn) \<and> n \<le> length (exp1_y sn) \<longrightarrow>
           (\<exists>xm ym. before_sampling h ds tsd = Inr (sn, tv, trns, xm, ym)))
     \<and> (\<forall>e. before_sampling h ds tsd = Inl e \<longleftrightarrow>
           get_troughs h (transects (int m) (int n)) dp = Inl e
         \<or> (\<exists>trns. get_troughs h (transects (int m) (int n)) dp = Inr trns)
           \<and> e = IndexError \<and> (length (exp1_x sn) < m \<or> length (exp1_y sn) < n))
     \<and> (\<forall>h' ds' tsd' e. before_sampling h' ds' tsd' = Inl e \<longrightarrow>
           read_snapshot ds' = Inl e \<or> read_timeseries tsd' = Inl e
         \<or> (\<exists>sn'. read_snapshot ds' = Inr sn' \<and>
              (get_troughs h' (transects (int (fst (shape2 (exp1_mask sn'))))
                  (int (snd (shape2 (exp1_mask sn'))))) dp = Inl e
             \<or> e = IndexError
               \<and> (length (exp1_x sn') < fst (shape2 (exp1_mask sn'))
                  \<or> length (exp1_y sn') < snd (shape2 (exp1_mask sn'))))))"
proof -
  have "define_profiles ds tsd = Inr (sn, tv, m, n, transects (int m) (int n))"
    using assms(1,2,3) by (simp add: define_profiles_Inr)
  moreover have "\<forall>t \<in> set (transects (int m) (int n)). fst t = (Mp (int m), Mp (int m))"
    by (simp add: transects_def points_defs)
  moreover have "even m \<and> 0 < m \<longrightarrow> Mp (int m) = int m div 2 - 1"
    using Mp_even [of "int m"] by simp
  moreover have "odd m \<longrightarrow> Mp (int m) = (int m - 1) div 2"
    by (auto simp: Mp_def elim!: oddE)
  moreover have "\<forall>ds' tsd' e. define_profiles ds' tsd' = Inl e \<longrightarrow>
           read_snapshot ds' = Inl e \<or> read_timeseries tsd' = Inl e"
    by (auto simp: define_profiles_Inl)
  moreover note bs = before_sampling_read [OF assms(1,2,3), of h]
  moreover have "\<forall>trns. get_troughs h (transects (int m) (int n)) dp = Inr trns
           \<and> m \<le> length (exp1_x sn) \<and> n \<le> length (exp1_y sn) \<longrightarrow>
           (\<exists>xm ym. before_sampling h ds tsd = Inr (sn, tv, trns, xm, ym))"
  proof (intro allI impI)
    fix trns
    assume a: "get_troughs h (transects (int m) (int n)) dp = Inr trns
           \<and> m \<le> length (exp1_x sn) \<and> n \<le> length (exp1_y sn)"
    then obtain xm ym where "build_mesh (exp1_x sn) (exp1_y sn) m n = Inr (xm, ym)"
      using build_mesh_Inr [of m "exp1_x sn" n "exp1_y sn"] by blast
    with a have "before_sampling h ds tsd = Inr (sn, tv, trns, xm, ym)"
      by (simp add: bs)
    then show "\<exists>xm ym. before_sampling h ds tsd = Inr (sn, tv, trns, xm, ym)"
      by blast
  qed
  moreover have "\<forall>e. before_sampling h ds tsd = Inl e \<longleftrightarrow>
           get_troughs h (transects (int m) (int n)) dp = Inl e
         \<or> (\<exists>trns. get_troughs h (transects (int m) (int n)) dp = Inr trns)
           \<and> e = IndexError \<and> (length (exp1_x sn) < m \<or> length (exp1_y sn) < n)"
    unfolding bs
    by (cases "get_troughs h (transects (int m) (int n)) dp")
      (auto simp: and_then_eq_Inl build_mesh_Inl)
  moreover have "\<forall>h' ds' tsd' e. before_sampling h' ds' tsd' = Inl e \<longrightarrow>
           read_snapshot ds' = Inl e \<or> read_timeseries tsd' = Inl e
         \<or> (\<exists>sn'. read_snapshot ds' = Inr sn' \<and>
              (get_troughs h' (transects (int (fst (shape2 (exp1_mask sn'))))
                  (int (snd (shape2 (exp1_mask sn'))))) dp = Inl e
             \<or> e = IndexError
               \<and> (length (exp1_x sn') < fst (shape2 (exp1_mask sn'))
                  \<or> length (exp1_y sn') < snd (shape2 (exp1_mask sn')))))"
    unfolding before_sampling_Inl by blast
  ultimately show ?thesis by blast
qed

text \<open>
  The example grid of 4 by 4 cells, where \<open>Mp = 1\<close> and the statements before the sampling
  loop complete.
\<close>

theorem even_grid_is_not_rejected_witness:
  "even (4::nat)
   \<and> map_sum id (fst \<circ> snd \<circ> snd)
       (define_profiles (ex_dataset ''xvelmean'' ''yvelmean'' ''lithk'' 4) ex_series) = Inr 4
   \<and> Mp 4 = 1
   \<and> (\<exists>r. before_sampling ex_helpers (ex_dataset ''xvelmean'' ''yvelmean'' ''lithk'' 4)
         ex_series = Inr r)"
proof -
  let ?sn = "\<lparr>exp1_x = map (\<lambda>i. Fin (real i)) [0..<4], exp1_y = map (\<lambda>i. Fin (real i)) [0..<4],
          exp1_t = [Fin (- 110000)],
          exp1_xvm = per_year (ex_grid 4 1), exp1_yvm = per_year (ex_grid 4 2),
          exp1_thk = ex_grid 4 100,
          exp1_mask = remap_mask (Signed 8) (ex_grid 4 2),
          exp1_crate = [per_year (ex_grid 4 0)],
          exp1_topg = ex_grid 4 (- 1)\<rparr>"
  let ?ds = "ex_dataset ''xvelmean'' ''yvelmean'' ''lithk'' 4"
  obtain tv where tv: "read_timeseries ex_series = Inr tv"
    using read_timeseries_ex by blast
  have sh: "shape2 (exp1_mask ?sn) = (4, 4)"
    by (simp add: shape2_ex_mask)
  have ev: "even (4::nat) \<or> even (4::nat)" by simp
  note t = even_grid_is_not_rejected [OF read_snapshot_ex tv sh ev, of ex_helpers]
  note completes = t [THEN conjunct2, THEN conjunct2, THEN conjunct2, THEN conjunct2,
      THEN conjunct2, THEN conjunct2, THEN conjunct1, rule_format]
  have "\<exists>xm ym. before_sampling ex_helpers ?ds ex_series =
      Inr (?sn, tv, [[(1, 1), (1, 2)], [(1, 1), (2, 2)], [(1, 1), (2, 1)], [(1, 1), (2, 2)],
          [(1, 1), (1, 2)], [(1, 1), (2, 2)], [(1, 1), (2, 1)], [(1, 1), (2, 2)]], xm, ym)"
    using ex_troughs by (intro completes) simp
  then have "\<exists>r. before_sampling ex_helpers ?ds ex_series = Inr r"
    by blast
  moreover have "define_profiles ?ds ex_series = Inr (?sn, tv, 4, 4, transects (int 4) (int 4))"
    by (rule t [THEN conjunct1])
  moreover have "Mp 4 = 1" by (simp add: Mp_def)
  ultimately show ?thesis by simp
qed

text \<open>
  Claim C5 as stated fails on the example grid of 4 by 4 cells: the transects are defined
  with the start \<open>(1, 1)\<close>, and with the example helper module the whole run completes
  without an error.
\<close>

theorem even_grid_counterexample:
  "even (4::nat)
   \<and> map_sum id (fst \<circ> snd \<circ> snd)
       (define_profiles (ex_dataset ''xvelmean'' ''yvelmean'' ''lithk'' 4) ex_series) = Inr 4
   \<and> map_sum id (map fst \<circ> snd \<circ> snd \<circ> snd \<circ> snd)
       (define_profiles (ex_dataset ''xvelmean'' ''yvelmean'' ''lithk'' 4) ex_series)
     = Inr (replicate 8 (1, 1))
   \<and> fst (run ex_helpers (ex_dataset ''xvelmean'' ''yvelmean'' ''lithk'' 4) ex_series Map.empty)
     = None"
proof -
  obtain tv where tv: "read_timeseries ex_series = Inr tv"
    using read_timeseries_ex by blast
  have "define_profiles (ex_dataset ''xvelmean'' ''yvelmean'' ''lithk'' 4) ex_series
      = Inr (\<lparr>exp1_x = map (\<lambda>i. Fin (real i)) [0..<4], exp1_y = map (\<lambda>i. Fin (real i)) [0..<4],
          exp1_t = [Fin (- 110000)],
          exp1_xvm = per_year (ex_grid 4 1), exp1_yvm = per_year (ex_grid 4 2),
          exp1_thk = ex_grid 4 100,
          exp1_mask = remap_mask (Signed 8) (ex_grid 4 2), exp1_crate = [per_year (ex_grid 4 0)],
          exp1_topg = ex_grid 4 (- 1)\<rparr>, tv, 4, 4, transects 4 4)"
    using tv by (simp add: define_profiles_Inr read_snapshot_ex shape2_ex_mask)
  moreover have "map fst (transects 4 4) = replicate 8 (1, 1)"
    by (simp add: transects_def points_defs Mp_def numeral_eq_Suc)
  moreover have "fst (run ex_helpers (ex_dataset ''xvelmean'' ''yvelmean'' ''lithk'' 4)
      ex_series Map.empty) = None"
    using ex_run_completes [of Map.empty] by auto
  ultimately show ?thesis by simp
qed

section \<open>The mask\<close>

lemma wrap_in_range: "stored_as dt (Fin (of_int y)) \<Longrightarrow> wrap dt y = y"
proof (cases dt)
  case Float64
  then show ?thesis by (simp add: wrap_def)
next
  case (Signed w)
  assume "stored_as dt (Fin (of_int y))"
  then have r: "- (2 ^ w div 2) \<le> y" "y < 2 ^ w div 2"
    using Signed by simp_all
  have "2 * ((2::int) ^ w div 2) \<le> 2 ^ w"
    by (cases w) simp_all
  with r have "0 \<le> y + 2 ^ w div 2" and "y + 2 ^ w div 2 < 2 ^ w"
    by linarith+
  then have "(y + 2 ^ w div 2) mod 2 ^ w = y + 2 ^ w div 2"
    by simp
  then show ?thesis using Signed by (simp add: wrap_def)
next
  case (Unsigned w)
  assume "stored_as dt (Fin (of_int y))"
  then show ?thesis using Unsigned by (simp add: wrap_def)
qed

lemma minus_one_exact:
  assumes "stored_as dt (Fin (of_int (z - 1)))"
  shows "minus_one dt (Fin (of_int z)) = Fin (of_int (z - 1))"
proof (cases dt)
  case Float64
  then show ?thesis by simp
next
  case (Signed w)
  then show ?thesis using wrap_in_range [OF assms] by simp
next
  case (Unsigned w)
  then show ?thesis using wrap_in_range [OF assms] by simp
qed

lemma stored_as_pred:
  assumes "stored_as dt (Fin (of_int z))" and "1 \<le> z"
  shows "stored_as dt (Fin (of_int (z - 1)))"
proof (cases dt)
  case Float64
  then show ?thesis by simp
next
  case (Signed w)
  have "(0::int) \<le> 2 ^ w div 2" by simp
  with assms Signed show ?thesis by simp
next
  case (Unsigned w)
  with assms show ?thesis by simp
qed

lemma minus_one_small:
  assumes "stored_as dt (Fin (of_int z))" and "1 \<le> z"
  shows "minus_one dt (Fin (of_int z)) = Fin (of_int (z - 1))"
  using minus_one_exact [OF stored_as_pred [OF assms]] .

lemma read_snapshot_mask:
  "read_snapshot ds = Inr sn \<Longrightarrow>
     \<exists>m. read3 ds ''mask'' = Inr m \<and> exp1_mask sn = remap_mask (mask_dtype ds) m"
  by (auto simp: read_snapshot_def and_then_eq_Inr)

text \<open>
  Claim C6. The mask is read as the array it is stored as and one is subtracted from
  every cell, in the arithmetic of the stored type: the result is the stored integer less
  one whenever that is a value of the type (at the lower end of an integer type the
  subtraction wraps around). In particular a stored \<open>1\<close>, \<open>2\<close> or \<open>3\<close> is remapped to
  \<open>0\<close>, \<open>1\<close> or \<open>2\<close>, so the remapped cell lies in the category space \<open>{0, 1, 2}\<close>,
  which the claim names grounded, floating and open ocean.
\<close>

theorem mask_remapped_by_one:
  assumes "read_snapshot ds = Inr sn"
  shows "\<exists>m. read3 ds ''mask'' = Inr m \<and> length (exp1_mask sn) = length m
     \<and> (\<forall>i<length m. length (exp1_mask sn ! i) = length (m ! i)
          \<and> (\<forall>j<length (m ! i).
                exp1_mask sn ! i ! j = minus_one (mask_dtype ds) (m ! i ! j)
              \<and> (\<forall>z. m ! i ! j = Fin (of_int z)
                      \<and> stored_as (mask_dtype ds) (Fin (of_int (z - 1)))
                    \<longrightarrow> exp1_mask sn ! i ! j = Fin (of_int (z - 1)))
              \<and> (stored_as (mask_dtype ds) (m ! i ! j)
                    \<and> m ! i ! j \<in> {Fin 1, Fin 2, Fin 3}
                  \<longrightarrow> exp1_mask sn ! i ! j \<in> {Fin 0, Fin 1, Fin 2}
                    \<and> (m ! i ! j = Fin 1 \<longrightarrow> exp1_mask sn ! i ! j = Fin 0)
                    \<and> (m ! i ! j = Fin 2 \<longrightarrow> exp1_mask sn ! i ! j = Fin 1)
                    \<and> (m ! i ! j = Fin 3 \<longrightarrow> exp1_mask sn ! i ! j = Fin 2))))"
proof -
  from read_snapshot_mask [OF assms] obtain m where
    m: "read3 ds ''mask'' = Inr m" "exp1_mask sn = remap_mask (mask_dtype ds) m"
    by blast
  have small: "minus_one (mask_dtype ds) (Fin 1) = Fin 0"
    if "stored_as (mask_dtype ds) (Fin 1)"
    using minus_one_small [of "mask_dtype ds" 1] that by simp
  have small2: "minus_one (mask_dtype ds) (Fin 2) = Fin 1"
    if "stored_as (mask_dtype ds) (Fin 2)"
    using minus_one_small [of "mask_dtype ds" 2] that by simp
  have small3: "minus_one (mask_dtype ds) (Fin 3) = Fin 2"
    if "stored_as (mask_dtype ds) (Fin 3)"
    using minus_one_small [of "mask_dtype ds" 3] that by simp
  have cell: "exp1_mask sn ! i ! j = minus_one (mask_dtype ds) (m ! i ! j)"
    if "i < length m" and "j < length (m ! i)" for i j
    using that by (simp add: m(2) remap_mask_def)
  have len: "length (exp1_mask sn) = length m"
    by (simp add: m(2) remap_mask_def)
  have rows: "length (exp1_mask sn ! i) = length (m ! i)" if "i < length m" for i
    using that by (simp add: m(2) remap_mask_def)
  have exact: "\<forall>z. m ! i ! j = Fin (of_int z)
                      \<and> stored_as (mask_dtype ds) (Fin (of_int (z - 1)))
                    \<longrightarrow> exp1_mask sn ! i ! j = Fin (of_int (z - 1))"
    if "i < length m" and "j < length (m ! i)" for i j
    using cell [OF that] by (simp add: minus_one_exact)
  have cats: "stored_as (mask_dtype ds) (m ! i ! j)
                    \<and> m ! i ! j \<in> {Fin 1, Fin 2, Fin 3}
                  \<longrightarrow> exp1_mask sn ! i ! j \<in> {Fin 0, Fin 1, Fin 2}
                    \<and> (m ! i ! j = Fin 1 \<longrightarrow> exp1_mask sn ! i ! j = Fin 0)
                    \<and> (m ! i ! j = Fin 2 \<longrightarrow> exp1_mask sn ! i ! j = Fin 1)
                    \<and> (m ! i ! j = Fin 3 \<longrightarrow> exp1_mask sn ! i ! j = Fin 2)"
    if "i < length m" and "j < length (m ! i)" for i j
    using cell [OF that] small small2 small3 by auto
  from m(1) len rows cell exact cats show ?thesis by blast
qed

text \<open>
  The example mask stores \<open>2\<close> in signed bytes everywhere and is remapped to \<open>1\<close>. An
  unsigned byte \<open>0\<close>, which has no predecessor in its type, would become \<open>255\<close>.
\<close>

theorem mask_remapped_by_one_witness:
  "map_sum id exp1_mask (read_snapshot (ex_dataset ''xvelmean'' ''yvelmean'' ''lithk'' 4))
     = Inr (ex_grid 4 1)
   \<and> stored_as (Signed 8) (Fin 2)
   \<and> minus_one (Unsigned 8) (Fin 0) = Fin 255"
  using mask_remapped_by_one [OF read_snapshot_ex, of 4]
  by (simp add: read_snapshot_ex remap_mask_def ex_grid_def wrap_def)

end
